theory Spec2Isabelle
  imports Complex_Main
begin

chapter \<open>The model\<close>

section \<open>JavaScript numbers\<close>

text \<open>
  A JavaScript number is modelled by its mathematical value, or by one of the three
  non-finite values.  Rounding to IEEE doubles is not modelled; the statements below
  concern which of the four shapes a result takes, and exact small quotients.
\<close>

datatype jsnum = Fin real | PosInf | NegInf | NaN

text \<open>The quotient \<open>a / b\<close> of two finite numbers.\<close>

definition js_div :: "real \<Rightarrow> real \<Rightarrow> jsnum" where
  "js_div a b =
     (if b = 0 then (if a = 0 then NaN else if 0 < a then PosInf else NegInf)
      else Fin (a / b))"

definition isNaN :: "jsnum \<Rightarrow> bool" where
  "isNaN x = (case x of NaN \<Rightarrow> True | _ \<Rightarrow> False)"

definition is_finite :: "jsnum \<Rightarrow> bool" where
  "is_finite x = (case x of Fin _ \<Rightarrow> True | _ \<Rightarrow> False)"

section \<open>Dashboard: scalar statistics (fetchDashboardData)\<close>

text \<open>
  The rows of the dashboard query: a call with its joined \<open>semantic_analysis\<close>, which the
  store returns as an array of analyses, a single analysis, or null.
\<close>

record analysis_join =
  alert_status :: "string option"
  sentiment :: "string option"

datatype semantic_analysis = JoinArray "analysis_join list" | JoinObject analysis_join | JoinNull

record call_row =
  call_id :: int
  call_duration :: "int option"
  semantic_analysis :: semantic_analysis

text \<open>
  \<open>Array.isArray(call.semantic_analysis) ? call.semantic_analysis[0] : call.semantic_analysis\<close>;
  index 0 of an empty array is undefined, which is falsy like null.
\<close>

definition first_analysis :: "call_row \<Rightarrow> analysis_join option" where
  "first_analysis c =
     (case semantic_analysis c of
        JoinArray as \<Rightarrow> (case as of [] \<Rightarrow> None | a # _ \<Rightarrow> Some a)
      | JoinObject a \<Rightarrow> Some a
      | JoinNull \<Rightarrow> None)"

text \<open>All analyses joined to a call.\<close>

definition analyses :: "call_row \<Rightarrow> analysis_join list" where
  "analyses c =
     (case semantic_analysis c of JoinArray as \<Rightarrow> as | JoinObject a \<Rightarrow> [a] | JoinNull \<Rightarrow> [])"

text \<open>The filter predicate of \<open>successfulCallsCount\<close>.\<close>

definition is_successful :: "call_row \<Rightarrow> bool" where
  "is_successful c =
     (case first_analysis c of
        None \<Rightarrow> False
      | Some a \<Rightarrow> alert_status a \<noteq> Some ''error'' \<and> alert_status a \<noteq> Some ''warning'')"

text \<open>\<open>call.call_duration || 0\<close>\<close>

definition duration_or_zero :: "call_row \<Rightarrow> int" where
  "duration_or_zero c = (case call_duration c of None \<Rightarrow> 0 | Some d \<Rightarrow> d)"

record dashboard_stats =
  totalCalls :: nat
  avgDuration :: jsnum
  successRate :: jsnum

definition totalDuration :: "call_row list \<Rightarrow> int" where
  "totalDuration calls = foldl (\<lambda>s c. s + duration_or_zero c) 0 calls"

definition successfulCallsCount :: "call_row list \<Rightarrow> nat" where
  "successfulCallsCount calls = length (filter is_successful calls)"

text \<open>\<open>x * 100\<close>, as in \<open>(successfulCallsCount / totalCalls) * 100\<close>.\<close>

definition times100 :: "jsnum \<Rightarrow> jsnum" where
  "times100 x = (case x of Fin r \<Rightarrow> Fin (r * 100) | PosInf \<Rightarrow> PosInf | NegInf \<Rightarrow> NegInf | NaN \<Rightarrow> NaN)"

definition fetchDashboardData_stats :: "call_row list \<Rightarrow> dashboard_stats" where
  "fetchDashboardData_stats calls =
     (let total = length calls in
      \<lparr> totalCalls = total,
        avgDuration = (if 0 < total then js_div (real_of_int (totalDuration calls)) (real total) else Fin 0),
        successRate = (if 0 < total then times100 (js_div (real (successfulCallsCount calls)) (real total))
                       else Fin 0) \<rparr>)"

text \<open>Rows for the worked scenario: an id, and the alert status of the joined analysis if any.\<close>

definition mk_call :: "int \<Rightarrow> string option option \<Rightarrow> call_row" where
  "mk_call i a =
     \<lparr> call_id = i, call_duration = Some 60,
       semantic_analysis =
         (case a of None \<Rightarrow> JoinArray [] | Some st \<Rightarrow> JoinArray [\<lparr> alert_status = st, sentiment = None \<rparr>]) \<rparr>"

definition scenario_calls :: "call_row list" where
  "scenario_calls =
     [mk_call 1 (Some (Some ''ok'')), mk_call 2 (Some (Some ''ok'')),
      mk_call 3 (Some (Some ''ok'')), mk_call 4 (Some (Some ''ok'')),
      mk_call 5 (Some (Some ''warning'')), mk_call 6 (Some (Some ''warning'')),
      mk_call 7 None, mk_call 8 None, mk_call 9 None, mk_call 10 None]"

section \<open>JSON values and decimal strings\<close>

text \<open>
  The \<open>Json\<close> type of the store's columns.  An object is the list of its own enumerable
  properties in the order \<open>Object.keys\<close> enumerates them; null is \<open>JNull\<close>.
\<close>

datatype json =
    JNull
  | JBool bool
  | JNumber real
  | JString string
  | JArray "json list"
  | JObject "(string \<times> json) list"

definition is_digit :: "char \<Rightarrow> bool" where
  "is_digit c = (c \<in> set ''0123456789'')"

definition digit_value :: "char \<Rightarrow> nat" where
  "digit_value c = of_char c - 48"

definition digits_value :: "string \<Rightarrow> nat" where
  "digits_value s = foldl (\<lambda>n c. 10 * n + digit_value c) 0 s"

section \<open>Analytics: the frequency aggregator (countOccurrences)\<close>

text \<open>
  The counter is a plain object used as a dictionary from label to count.  It is modelled
  by the list of its own properties in creation order.  \<open>Object.entries\<close> does not
  enumerate in creation order throughout: own keys that are array indices (canonical
  decimal numerals up to \<open>2^32 - 2\<close>) come first, in ascending numeric order, and the
  remaining string keys follow in creation order.
\<close>

type_synonym counter = "(string \<times> nat) list"

definition is_array_index :: "string \<Rightarrow> bool" where
  "is_array_index s =
     (s \<noteq> [] \<and> list_all is_digit s \<and> (s = ''0'' \<or> hd s \<noteq> CHR ''0'')
      \<and> digits_value s \<le> 4294967294)"

definition Object_entries :: "counter \<Rightarrow> (string \<times> nat) list" where
  "Object_entries c =
     sort_key (\<lambda>e. digits_value (fst e)) (filter (\<lambda>e. is_array_index (fst e)) c)
     @ filter (\<lambda>e. \<not> is_array_index (fst e)) c"

text \<open>
  The property names every plain object inherits from \<open>Object.prototype\<close>.  For such a
  name \<open>counter[k] || 0\<close> reads the inherited (truthy, non-numeric) member, so the counter
  leaves the numbers and the comparator of the sort is no longer consistent.  That
  behaviour is implementation-defined and is not modelled: the count is then \<open>None\<close>.
\<close>

definition object_prototype_keys :: "string list" where
  "object_prototype_keys =
     [''constructor'', ''hasOwnProperty'', ''isPrototypeOf'', ''propertyIsEnumerable'',
      ''toLocaleString'', ''toString'', ''valueOf'', ''__proto__'',
      ''__defineGetter__'', ''__defineSetter__'', ''__lookupGetter__'', ''__lookupSetter__'']"

text \<open>\<open>counter[k] = (counter[k] || 0) + 1\<close> for a key that is not inherited.\<close>

fun bump :: "counter \<Rightarrow> string \<Rightarrow> counter" where
  "bump [] k = [(k, 1)]"
| "bump ((k', n) # c) k = (if k' = k then (k', n + 1) # c else (k', n) # bump c k)"

definition increment :: "counter \<Rightarrow> string \<Rightarrow> counter option" where
  "increment c k = (if k \<in> set object_prototype_keys then None else Some (bump c k))"

text \<open>\<open>keys.forEach(k => ...)\<close> over the keys of a keyed object.\<close>

fun count_keys :: "counter \<Rightarrow> string list \<Rightarrow> counter option" where
  "count_keys c [] = Some c"
| "count_keys c (k # ks) = (case increment c k of None \<Rightarrow> None | Some c' \<Rightarrow> count_keys c' ks)"

text \<open>\<open>item.forEach(i => { if (typeof i === 'string') ... })\<close> over the elements of an array.\<close>

fun count_array :: "counter \<Rightarrow> json list \<Rightarrow> counter option" where
  "count_array c [] = Some c"
| "count_array c (JString s # xs) =
     (case increment c s of None \<Rightarrow> None | Some c' \<Rightarrow> count_array c' xs)"
| "count_array c (_ # xs) = count_array c xs"

text \<open>
  The body of \<open>items.forEach\<close>: a non-null, non-array object counts its keys, an array counts
  its string elements, and every other value (null, a string, a number, a boolean)
  takes neither branch.
\<close>

fun count_item :: "counter \<Rightarrow> json \<Rightarrow> counter option" where
  "count_item c (JObject kvs) = count_keys c (map fst kvs)"
| "count_item c (JArray xs) = count_array c xs"
| "count_item c _ = Some c"

fun count_items :: "counter \<Rightarrow> json list \<Rightarrow> counter option" where
  "count_items c [] = Some c"
| "count_items c (item # items) =
     (case count_item c item of None \<Rightarrow> None | Some c' \<Rightarrow> count_items c' items)"

text \<open>
  \<open>Object.entries(counter).sort(([, a], [, b]) => b - a).slice(0, 5)\<close>.  The sort is stable
  and the comparator orders by descending count, so the result is the stable sort on the
  negated count.
\<close>

definition top5 :: "counter \<Rightarrow> (string \<times> nat) list" where
  "top5 c = take 5 (sort_key (\<lambda>e. - int (snd e)) (Object_entries c))"

definition countOccurrences :: "json list \<Rightarrow> (string \<times> nat) list option" where
  "countOccurrences items = map_option top5 (count_items [] items)"

text \<open>The labels one item adds to the counter, in the order it adds them.\<close>

fun string_elements :: "json list \<Rightarrow> string list" where
  "string_elements [] = []"
| "string_elements (JString s # xs) = s # string_elements xs"
| "string_elements (_ # xs) = string_elements xs"

fun counted_labels :: "json \<Rightarrow> string list" where
  "counted_labels (JObject kvs) = map fst kvs"
| "counted_labels (JArray xs) = string_elements xs"
| "counted_labels _ = []"

definition all_labels :: "json list \<Rightarrow> string list" where
  "all_labels items = concat (map counted_labels items)"

definition bare_string :: "json \<Rightarrow> bool" where
  "bare_string j = (case j of JString _ \<Rightarrow> True | _ \<Rightarrow> False)"

text \<open>
  The normalization of one indicator collection in the words of the specification (null
  gives no label, a bare string gives itself, a keyed object gives its key names), except
  that an array gives its string elements only.  It is compared with the labels the code
  counts.
\<close>

fun normalized :: "json \<Rightarrow> string list" where
  "normalized JNull = []"
| "normalized (JString s) = [s]"
| "normalized (JArray xs) = string_elements xs"
| "normalized (JObject kvs) = map fst kvs"
| "normalized _ = []"

text \<open>The count a counter holds for a label (0 when the label is no property of it).\<close>

definition count_of :: "counter \<Rightarrow> string \<Rightarrow> nat" where
  "count_of c l = (case map_of c l of None \<Rightarrow> 0 | Some n \<Rightarrow> n)"

text \<open>Position of the first occurrence of a label in a sequence of labels.\<close>

definition first_pos :: "string list \<Rightarrow> string \<Rightarrow> nat" where
  "first_pos L a = length (takeWhile (\<lambda>x. x \<noteq> a) L)"

text \<open>
  The order in which \<open>Object.entries\<close> lists two distinct labels of the counter built from
  the label sequence \<open>L\<close>: array indices first and ascending, then first occurrence.
\<close>

definition enum_before :: "string list \<Rightarrow> string \<Rightarrow> string \<Rightarrow> bool" where
  "enum_before L a b =
     (if is_array_index a then (if is_array_index b then digits_value a \<le> digits_value b else True)
      else (\<not> is_array_index b \<and> first_pos L a < first_pos L b))"

subsection \<open>Sample inputs\<close>

text \<open>
  The example of the specification without its bare string, where \<open>a\<close> is counted once
  and \<open>b\<close> twice, and an input with ties between array-index labels and other labels.
\<close>

definition example_items :: "json list" where
  "example_items =
     [JArray [JString ''a'', JString ''b''], JObject [(''b'', JBool True)], JNull]"

definition tie_items :: "json list" where
  "tie_items = [JArray [JString ''b'', JString ''10'', JString ''9'', JString ''a'', JString ''b'']]"

text \<open>Six labels that tie: the slice cuts one off.\<close>

definition cut_items :: "json list" where
  "cut_items =
     [JArray [JString ''f'', JString ''e'', JString ''d'', JString ''c'', JString ''b'', JString ''a'']]"

section \<open>Analytics and the analysis table: classification and confidence\<close>

text \<open>
  The columns of a \<open>semantic_analysis\<close> row that the classification and the confidence
  average read.
\<close>

record analysis_row =
  row_id :: int
  row_sentiment :: "string option"
  row_alert_status :: "string option"
  agent_confidence :: "real option"

text \<open>
  \<open>toLowerCase\<close> on labels, which are taken to be ASCII: the letters \<open>A\<close> to \<open>Z\<close> are mapped
  to \<open>a\<close> to \<open>z\<close> and every other character is kept.
\<close>

definition lower_char :: "char \<Rightarrow> char" where
  "lower_char c =
     (case map_of (zip ''ABCDEFGHIJKLMNOPQRSTUVWXYZ'' ''abcdefghijklmnopqrstuvwxyz'') c of
        None \<Rightarrow> c | Some d \<Rightarrow> d)"

definition toLowerCase :: "string \<Rightarrow> string" where
  "toLowerCase s = map lower_char s"

text \<open>\<open>text?.toLowerCase() || 'unknown'\<close>: null and the empty string are falsy.\<close>

definition status_of :: "string option \<Rightarrow> string" where
  "status_of t =
     (case t of
        None \<Rightarrow> ''unknown''
      | Some s \<Rightarrow> (if toLowerCase s = [] then ''unknown'' else toLowerCase s))"

datatype badge_type = Sentiment | Alert

definition default_styles :: string where
  "default_styles = ''bg-slate-600/20 text-slate-300''"

text \<open>The two \<open>switch\<close> statements of \<open>StatusBadge\<close>; a status without a case keeps the default.\<close>

definition badge_styles :: "badge_type \<Rightarrow> string \<Rightarrow> string" where
  "badge_styles ty st =
     (case ty of
        Sentiment \<Rightarrow>
          (if st = ''positive'' then ''bg-green-500/20 text-green-300''
           else if st = ''negative'' then ''bg-red-500/20 text-red-300''
           else if st = ''neutral'' then ''bg-sky-500/20 text-sky-300''
           else default_styles)
      | Alert \<Rightarrow>
          (if st = ''ok'' then ''bg-green-500/20 text-green-300''
           else if st = ''warning'' then ''bg-yellow-500/20 text-yellow-300''
           else if st = ''error'' then ''bg-red-500/20 text-red-300''
           else default_styles))"

text \<open>The badge: the text it shows and the styles it carries.\<close>

definition StatusBadge :: "string option \<Rightarrow> badge_type \<Rightarrow> string \<times> string" where
  "StatusBadge t ty = (status_of t, badge_styles ty (status_of t))"

definition recognized :: "badge_type \<Rightarrow> string \<Rightarrow> bool" where
  "recognized ty st =
     (case ty of
        Sentiment \<Rightarrow> st \<in> set [''positive'', ''negative'', ''neutral'']
      | Alert \<Rightarrow> st \<in> set [''ok'', ''warning'', ''error''])"

text \<open>
  \<open>sentimentCounts\<close>: the rows are counted in a plain object under the key
  \<open>curr.sentiment?.toLowerCase() || 'unknown'\<close>.
\<close>

definition sentimentCounts :: "analysis_row list \<Rightarrow> counter option" where
  "sentimentCounts analysisData = count_keys [] (map (\<lambda>d. status_of (row_sentiment d)) analysisData)"

text \<open>
  \<open>avgConfidence\<close> in \<open>processedData\<close>.  Without rows (\<open>analysisData.length === 0\<close>)
  \<open>processedData\<close> is null and nothing is computed: the result is \<open>None\<close>.  Otherwise it is
  the sum of the non-null confidences divided by their number.
\<close>

definition confident :: "analysis_row list \<Rightarrow> analysis_row list" where
  "confident analysisData = filter (\<lambda>d. agent_confidence d \<noteq> None) analysisData"

definition confidence_or_zero :: "analysis_row \<Rightarrow> real" where
  "confidence_or_zero d = (case agent_confidence d of None \<Rightarrow> 0 | Some x \<Rightarrow> x)"

definition avgConfidence :: "analysis_row list \<Rightarrow> jsnum option" where
  "avgConfidence analysisData =
     (if length analysisData = 0 then None
      else Some (js_div (foldl (\<lambda>acc d. acc + confidence_or_zero d) 0 (confident analysisData))
                        (real (length (confident analysisData)))))"

text \<open>
  The card: \<open>isNaN(avgConfidence) ? 'N/A' : (avgConfidence * 100).toFixed(1) + '%'\<close>; the
  percentage is kept as a number.  The card is rendered only when \<open>processedData\<close> is not
  null; otherwise the page shows that there is no analytics data.
\<close>

datatype confidence_text = NotAvailable | Percent jsnum

definition avgConfidenceText :: "jsnum \<Rightarrow> confidence_text" where
  "avgConfidenceText x = (if isNaN x then NotAvailable else Percent (times100 x))"

definition confidenceCard :: "analysis_row list \<Rightarrow> confidence_text option" where
  "confidenceCard analysisData = map_option avgConfidenceText (avgConfidence analysisData)"

text \<open>Sample rows: one with a given confidence, one with a given sentiment.\<close>

definition conf_row :: "real option \<Rightarrow> analysis_row" where
  "conf_row x = \<lparr> row_id = 1, row_sentiment = None, row_alert_status = None, agent_confidence = x \<rparr>"

definition sentiment_row :: "string option \<Rightarrow> analysis_row" where
  "sentiment_row x = \<lparr> row_id = 1, row_sentiment = x, row_alert_status = None, agent_confidence = None \<rparr>"

section \<open>parseInt\<close>

text \<open>
  \<open>parseInt\<close> on ASCII input: leading white space is skipped, one sign is read, and the
  longest prefix of digits of the radix is the value; without such a prefix the result is
  NaN.  Without a radix argument a \<open>0x\<close> prefix selects radix 16, otherwise the radix is
  10.  The sign of a zero result is not modelled.
\<close>

definition is_space :: "char \<Rightarrow> bool" where
  "is_space c = (c \<in> set [CHR '' '', CHR 0x09, CHR 0x0A, CHR 0x0B, CHR 0x0C, CHR 0x0D])"

definition strip_sign :: "string \<Rightarrow> int \<times> string" where
  "strip_sign s =
     (case s of
        [] \<Rightarrow> (1, [])
      | c # r \<Rightarrow> (if c = CHR ''-'' then (- 1, r) else if c = CHR ''+'' then (1, r) else (1, s)))"

definition hex_digit :: "char \<Rightarrow> nat option" where
  "hex_digit c =
     map_of (zip ''0123456789abcdefABCDEF''
               [0, 1, 2, 3, 4, 5, 6, 7, 8, 9, 10, 11, 12, 13, 14, 15, 10, 11, 12, 13, 14, 15]) c"

definition hex_value :: "string \<Rightarrow> nat" where
  "hex_value s = foldl (\<lambda>n c. 16 * n + (case hex_digit c of None \<Rightarrow> 0 | Some d \<Rightarrow> d)) 0 s"

text \<open>\<open>parseInt(s, 10)\<close>\<close>

definition parseInt10 :: "string \<Rightarrow> jsnum" where
  "parseInt10 s =
     (let (sign, u) = strip_sign (dropWhile is_space s);
          z = takeWhile is_digit u
      in if z = [] then NaN else Fin (real_of_int (sign * int (digits_value z))))"

text \<open>\<open>parseInt(s)\<close>\<close>

definition parseInt :: "string \<Rightarrow> jsnum" where
  "parseInt s =
     (let (sign, u) = strip_sign (dropWhile is_space s)
      in if take 2 u = ''0x'' \<or> take 2 u = ''0X''
         then (let z = takeWhile (\<lambda>c. hex_digit c \<noteq> None) (drop 2 u)
               in if z = [] then NaN else Fin (real_of_int (sign * int (hex_value z))))
         else (let z = takeWhile is_digit u
               in if z = [] then NaN else Fin (real_of_int (sign * int (digits_value z)))))"

section \<open>Query predicates\<close>

text \<open>
  A \<open>Date\<close> holds a time value: the milliseconds since the epoch, in UTC.  A predicate
  carries the time value of its date (\<open>toISOString\<close> writes it out in UTC).
\<close>

datatype operand = Text string | Number jsnum | Instant int

datatype predicate =
    Eq string operand
  | Gte string operand
  | Lte string operand

datatype js_error = RangeError

text \<open>
  Day number and time within the day of a time value, and their inverse, as in
  ECMAScript (\<open>Day\<close>, \<open>TimeWithinDay\<close>, \<open>MakeTime\<close>, \<open>MakeDate\<close>).
\<close>

definition msPerDay :: int where
  "msPerDay = 86400000"

definition Day :: "int \<Rightarrow> int" where
  "Day t = t div msPerDay"

definition TimeWithinDay :: "int \<Rightarrow> int" where
  "TimeWithinDay t = t mod msPerDay"

definition MakeTime :: "int \<Rightarrow> int \<Rightarrow> int \<Rightarrow> int \<Rightarrow> int" where
  "MakeTime h m s x = ((h * 60 + m) * 60 + s) * 1000 + x"

definition MakeDate :: "int \<Rightarrow> int \<Rightarrow> int" where
  "MakeDate d t = d * msPerDay + t"

text \<open>
  The time zone of the browser: \<open>LocalTime\<close> reads a time value as local time, \<open>UTC\<close> gives
  the time value of a local time.  A local time that a clock change skips has no time
  value of its own; \<open>UTC\<close> then gives a time value that reads as another local time.
\<close>

record zone =
  LocalTime :: "int \<Rightarrow> int"
  UTC :: "int \<Rightarrow> int"

definition local_exists :: "zone \<Rightarrow> int \<Rightarrow> bool" where
  "local_exists z l = (LocalTime z (UTC z l) = l)"

text \<open>A zone at a fixed offset from UTC.\<close>

definition fixed_zone :: "int \<Rightarrow> zone" where
  "fixed_zone off = \<lparr> LocalTime = (\<lambda>t. t + off), UTC = (\<lambda>l. l - off) \<rparr>"

text \<open>
  A zone whose offset changes from \<open>before\<close> to \<open>after\<close> at the time value \<open>X\<close>.  A local
  time that occurs twice stands for its first occurrence, and a skipped one is taken at
  the offset before the change, as ECMAScript prescribes.
\<close>

definition zone_with_change :: "int \<Rightarrow> int \<Rightarrow> int \<Rightarrow> zone" where
  "zone_with_change X before after =
     \<lparr> LocalTime = (\<lambda>t. if t < X then t + before else t + after),
       UTC = (\<lambda>l. if l - before < X then l - before
                   else if X \<le> l - after then l - after
                   else l - before) \<rparr>"

text \<open>
  New York in March 2024: the offset changes from -5 h to -4 h on 10 March (day 19792) at
  07:00 UTC, so that the local times from 02:00 to 03:00 of that day are skipped.
\<close>

definition new_york :: zone where
  "new_york = zone_with_change (MakeDate 19792 (MakeTime 7 0 0 0)) (- MakeTime 5 0 0 0) (- MakeTime 4 0 0 0)"

text \<open>
  Havana in March 2024: the offset changes from -5 h to -4 h on 10 March at 05:00 UTC, so
  that the local times from 00:00 to 01:00 of that day are skipped.
\<close>

definition havana :: zone where
  "havana = zone_with_change (MakeDate 19792 (MakeTime 5 0 0 0)) (- MakeTime 5 0 0 0) (- MakeTime 4 0 0 0)"

text \<open>
  \<open>d.setHours(h, m, s, ms)\<close> for arguments within their ranges: the local day of \<open>d\<close> with
  the given local time of day.
\<close>

definition setHours :: "zone \<Rightarrow> int \<Rightarrow> int \<Rightarrow> int \<Rightarrow> int \<Rightarrow> int \<Rightarrow> int" where
  "setHours z h m s x d = UTC z (MakeDate (Day (LocalTime z d)) (MakeTime h m s x))"

text \<open>
  \<open>d.setDate(d.getDate() - k)\<close>: the local calendar day moves, the local time of day
  stays.
\<close>

definition setDate_minus :: "zone \<Rightarrow> int \<Rightarrow> int \<Rightarrow> int" where
  "setDate_minus z k d =
     (let t = LocalTime z d in UTC z (MakeDate (Day t - k) (TimeWithinDay t)))"

section \<open>Dashboard: the date window (getDatesFromRange)\<close>

datatype DateRange = Today | Last7d | Last30d

text \<open>
  The two clock readings \<open>new Date()\<close> of the function are the arguments \<open>now1\<close> and \<open>now2\<close>,
  for \<open>end\<close> and for \<open>start\<close>.  The result is the pair of \<open>startDate\<close> and \<open>endDate\<close>.
\<close>

definition getDatesFromRange :: "zone \<Rightarrow> int \<Rightarrow> int \<Rightarrow> DateRange \<Rightarrow> int \<times> int" where
  "getDatesFromRange z now1 now2 rng =
     (let end0 = now1;
          start0 = setHours z 0 0 0 0 now2
      in case rng of
           Today \<Rightarrow> (start0, setHours z 23 59 59 999 end0)
         | Last7d \<Rightarrow> (setDate_minus z 6 start0, end0)
         | Last30d \<Rightarrow> (setDate_minus z 29 start0, end0))"

text \<open>The date predicates of the dashboard's query for calls.\<close>

definition fetchDashboardData_query :: "zone \<Rightarrow> int \<Rightarrow> int \<Rightarrow> DateRange \<Rightarrow> predicate list" where
  "fetchDashboardData_query z now1 now2 rng =
     (let (startDate, endDate) = getDatesFromRange z now1 now2 rng
      in [Gte ''created_at'' (Instant startDate), Lte ''created_at'' (Instant endDate)])"

section \<open>Analytics: the date window (fetchAnalytics)\<close>

datatype AnalyticsRange = All | Days7 | Days30 | Days90

definition range_token :: "AnalyticsRange \<Rightarrow> string" where
  "range_token r = (case r of All \<Rightarrow> ''all'' | Days7 \<Rightarrow> ''7d'' | Days30 \<Rightarrow> ''30d'' | Days90 \<Rightarrow> ''90d'')"

text \<open>\<open>s.replace('d', '')\<close>: the first occurrence is removed.\<close>

fun remove_first :: "char \<Rightarrow> string \<Rightarrow> string" where
  "remove_first c [] = []"
| "remove_first c (x # xs) = (if x = c then xs else x # remove_first c xs)"

text \<open>
  The predicates of the analytics query.  \<open>setDate\<close> with NaN gives an invalid date, on
  which \<open>toISOString\<close> throws.
\<close>

definition fetchAnalytics_query :: "zone \<Rightarrow> int \<Rightarrow> AnalyticsRange \<Rightarrow> js_error + predicate list" where
  "fetchAnalytics_query z now dateRange =
     (if dateRange \<noteq> All
      then (case parseInt (remove_first CHR ''d'' (range_token dateRange)) of
              Fin days \<Rightarrow> Inr [Gte ''created_at'' (Instant (setDate_minus z \<lfloor>days\<rfloor> now))]
            | _ \<Rightarrow> Inl RangeError)
      else Inr [])"

section \<open>Analysis table: the predicate builder (fetchAnalysisData)\<close>

record analysis_filters =
  callId :: string
  sentiment_filter :: string
  alertStatus :: string
  startDate :: string
  endDate :: string

text \<open>
  The predicates added to the query, in the order of the source; a filter is applied
  when its string is truthy, that is, not empty.
\<close>

definition fetchAnalysisData_query :: "string \<Rightarrow> analysis_filters \<Rightarrow> predicate list" where
  "fetchAnalysisData_query debouncedCallId filters =
     (if debouncedCallId \<noteq> [] then [Eq ''call_id'' (Number (parseInt10 debouncedCallId))] else [])
     @ (if sentiment_filter filters \<noteq> [] then [Eq ''sentiment'' (Text (sentiment_filter filters))] else [])
     @ (if alertStatus filters \<noteq> [] then [Eq ''alert_status'' (Text (alertStatus filters))] else [])
     @ (if startDate filters \<noteq> [] then [Gte ''created_at'' (Text (startDate filters @ ''T00:00:00.000Z''))] else [])
     @ (if endDate filters \<noteq> [] then [Lte ''created_at'' (Text (endDate filters @ ''T23:59:59.999Z''))] else [])"

text \<open>The filter state with every field empty.\<close>

definition no_filters :: analysis_filters where
  "no_filters = \<lparr> callId = [], sentiment_filter = [], alertStatus = [], startDate = [], endDate = [] \<rparr>"

section \<open>View state and query completion\<close>

text \<open>
  A query to the store completes with an error or with data.  A completion handler
  updates the state of its view and may log to the console; the effects it returns
  would also show a query it dispatched.
\<close>

datatype 'a query_result = QueryError string | QueryData 'a

datatype effect = ConsoleError string | Dispatch string

text \<open>The state shared by the list views: the rows, the loading flag and the error message.\<close>

record 'a view_state =
  view_rows :: "'a list"
  view_loading :: bool
  view_error :: "string option"

text \<open>\<open>setLoading(true); setError(null)\<close> before the query is sent.\<close>

definition fetch_start :: "('a, 'm) view_state_scheme \<Rightarrow> ('a, 'm) view_state_scheme" where
  "fetch_start s = s\<lparr> view_loading := True, view_error := None \<rparr>"

text \<open>
  The completion shared by the list views:
  \<open>if (error) { console.error(label, error); setError(message) } else { setRows(data) }
  setLoading(false)\<close>.
\<close>

definition fetch_done ::
  "string \<Rightarrow> string \<Rightarrow> 'a list query_result \<Rightarrow> ('a, 'm) view_state_scheme
   \<Rightarrow> ('a, 'm) view_state_scheme \<times> effect list" where
  "fetch_done label message res s =
     (case res of
        QueryError e \<Rightarrow> (s\<lparr> view_error := Some message, view_loading := False \<rparr>, [ConsoleError label])
      | QueryData d \<Rightarrow> (s\<lparr> view_rows := d, view_loading := False \<rparr>, []))"

definition fetchConversations_done ::
  "'a list query_result \<Rightarrow> 'a view_state \<Rightarrow> 'a view_state \<times> effect list" where
  "fetchConversations_done =
     fetch_done ''Error fetching conversations:''
       ''Failed to load conversations. Please check your connection and Supabase configuration.''"

definition fetchAnalytics_done ::
  "analysis_row list query_result \<Rightarrow> analysis_row view_state \<Rightarrow> analysis_row view_state \<times> effect list" where
  "fetchAnalytics_done = fetch_done ''Error fetching analytics:'' ''Failed to load analytics data.''"

definition fetchMeetings_done ::
  "'a list query_result \<Rightarrow> 'a view_state \<Rightarrow> 'a view_state \<times> effect list" where
  "fetchMeetings_done = fetch_done ''Error fetching meetings:'' ''Failed to load scheduled meetings.''"

subsection \<open>The analysis table and its expanded row\<close>

record table_state = "analysis_row view_state" +
  expandedRowId :: "int option"

definition fetchAnalysisData_done ::
  "analysis_row list query_result \<Rightarrow> table_state \<Rightarrow> table_state \<times> effect list" where
  "fetchAnalysisData_done = fetch_done ''Error fetching semantic analysis:'' ''Failed to load analysis data.''"

text \<open>\<open>setExpandedRowId(expandedRowId === rowId ? null : rowId)\<close>\<close>

definition handleRowToggle :: "int \<Rightarrow> table_state \<Rightarrow> table_state" where
  "handleRowToggle rowId s =
     s\<lparr> expandedRowId := (if expandedRowId s = Some rowId then None else Some rowId) \<rparr>"

text \<open>
  The rows rendered with their detail panel: the table is rendered when the view is
  neither loading nor in error and has rows, and a row is expanded when
  \<open>expandedRowId === row.id\<close>.
\<close>

definition expanded_rows :: "table_state \<Rightarrow> analysis_row list" where
  "expanded_rows s =
     (if view_loading s \<or> view_error s \<noteq> None \<or> view_rows s = [] then []
      else filter (\<lambda>row. expandedRowId s = Some (row_id row)) (view_rows s))"

text \<open>A table showing rows with the given identifiers, with a given expanded-row identifier.\<close>

definition table_row :: "int \<Rightarrow> analysis_row" where
  "table_row i = \<lparr> row_id = i, row_sentiment = None, row_alert_status = None, agent_confidence = None \<rparr>"

definition table_with :: "int list \<Rightarrow> int option \<Rightarrow> table_state" where
  "table_with ids x =
     \<lparr> view_rows = map table_row ids, view_loading = False, view_error = None, expandedRowId = x \<rparr>"

subsection \<open>The dashboard\<close>

record dashboard_state =
  recentCalls :: "call_row list"
  dash_loading :: bool
  dash_error :: "string option"
  meetingsInPeriod :: "nat option"
  stats :: "dashboard_stats option"
  statsLoading :: bool

text \<open>
  The completion of the query for calls in \<open>fetchDashboardData\<close>.  The recent calls are
  the first five rows (their display fields are not modelled).
\<close>

definition fetchDashboardData_done ::
  "call_row list query_result \<Rightarrow> dashboard_state \<Rightarrow> dashboard_state \<times> effect list" where
  "fetchDashboardData_done res s =
     (case res of
        QueryError e \<Rightarrow>
          (s\<lparr> dash_error := Some ''Failed to load dashboard data. Please try again later.'',
              dash_loading := False, statsLoading := False \<rparr>,
           [ConsoleError ''Error fetching dashboard data:''])
      | QueryData calls \<Rightarrow>
          (s\<lparr> stats := Some (fetchDashboardData_stats calls), statsLoading := False,
              recentCalls := take 5 calls, dash_loading := False \<rparr>, []))"

text \<open>
  The completion of the count query in the dashboard's \<open>fetchMeetings\<close>:
  \<open>if (error) { console.error(...); setMeetingsInPeriod(0) } else { setMeetingsInPeriod(count) }\<close>.
\<close>

definition fetchMeetingsInPeriod_done ::
  "nat option query_result \<Rightarrow> dashboard_state \<Rightarrow> dashboard_state \<times> effect list" where
  "fetchMeetingsInPeriod_done res s =
     (case res of
        QueryError e \<Rightarrow>
          (s\<lparr> meetingsInPeriod := Some 0 \<rparr>, [ConsoleError ''Error fetching meetings for period:''])
      | QueryData n \<Rightarrow> (s\<lparr> meetingsInPeriod := n \<rparr>, []))"

text \<open>Whether an effect sends a query, and the dashboard as it is while its first queries run.\<close>

definition is_dispatch :: "effect \<Rightarrow> bool" where
  "is_dispatch x = (case x of Dispatch _ \<Rightarrow> True | ConsoleError _ \<Rightarrow> False)"

definition dashboard_loading :: dashboard_state where
  "dashboard_loading =
     \<lparr> recentCalls = [], dash_loading = True, dash_error = None, meetingsInPeriod = None,
       stats = None, statsLoading = True \<rparr>"

section \<open>The debounced filter field\<close>














chapter \<open>Properties\<close>

section \<open>Dashboard: scalar statistics (fetchDashboardData)\<close>

lemma successRate_formula:
  "calls \<noteq> [] \<Longrightarrow>
   successRate (fetchDashboardData_stats calls) =
     Fin (real (successfulCallsCount calls) / real (length calls) * 100)"
  by (simp add: fetchDashboardData_stats_def Let_def js_div_def times100_def)

lemma scenario_successful: "successfulCallsCount scenario_calls = 4"
  by (simp add: successfulCallsCount_def scenario_calls_def mk_call_def is_successful_def
      first_analysis_def)

text \<open>
  C5.  A call is counted as successful exactly when its first joined analysis exists and
  has an alert status that is neither \<open>error\<close> nor \<open>warning\<close>; for a call with at most one
  analysis, as the data model has it, that is: when it has an analysis with such a
  status.  Calls without an analysis are not successful but are part of the total.  The
  success rate of a non-empty record set is successful / total * 100.  In the scenario of
  ten calls (four \<open>ok\<close>, two \<open>warning\<close>, four without analysis) the total is 10, the
  successful count 4 and the rate 40.
\<close>

theorem C5_success_rate:
  "(is_successful c \<longleftrightarrow>
      (\<exists>a. first_analysis c = Some a \<and> alert_status a \<noteq> Some ''warning''
           \<and> alert_status a \<noteq> Some ''error''))
   \<and> (first_analysis c = None \<longrightarrow> \<not> is_successful c)
   \<and> (length (analyses c) \<le> 1 \<longrightarrow>
        (is_successful c \<longleftrightarrow>
           (\<exists>a\<in>set (analyses c). alert_status a \<noteq> Some ''warning''
               \<and> alert_status a \<noteq> Some ''error'')))
   \<and> (analyses c = [] \<longrightarrow> \<not> is_successful c)
   \<and> totalCalls (fetchDashboardData_stats calls) = length calls
   \<and> successfulCallsCount calls = length (filter is_successful calls)
   \<and> (calls \<noteq> [] \<longrightarrow>
        successRate (fetchDashboardData_stats calls) =
          Fin (real (successfulCallsCount calls) / real (totalCalls (fetchDashboardData_stats calls)) * 100))
   \<and> totalCalls (fetchDashboardData_stats scenario_calls) = 10
   \<and> successfulCallsCount scenario_calls = 4
   \<and> successRate (fetchDashboardData_stats scenario_calls) = Fin 40"
proof -
  have a: "is_successful c \<longleftrightarrow>
      (\<exists>a. first_analysis c = Some a \<and> alert_status a \<noteq> Some ''warning''
           \<and> alert_status a \<noteq> Some ''error'')"
    by (auto simp: is_successful_def split: option.splits)
  have b: "first_analysis c = None \<longrightarrow> \<not> is_successful c"
    by (simp add: is_successful_def)
  have b1: "length (analyses c) \<le> 1 \<longrightarrow>
        (is_successful c \<longleftrightarrow>
           (\<exists>a\<in>set (analyses c). alert_status a \<noteq> Some ''warning''
               \<and> alert_status a \<noteq> Some ''error''))"
    by (cases "semantic_analysis c")
      (auto simp: is_successful_def first_analysis_def analyses_def split: list.splits)
  have b2: "analyses c = [] \<longrightarrow> \<not> is_successful c"
    by (cases "semantic_analysis c")
      (auto simp: is_successful_def first_analysis_def analyses_def)
  have c: "totalCalls (fetchDashboardData_stats calls) = length calls"
    by (simp add: fetchDashboardData_stats_def Let_def)
  have d: "successfulCallsCount calls = length (filter is_successful calls)"
    by (simp add: successfulCallsCount_def)
  have e: "calls \<noteq> [] \<longrightarrow>
        successRate (fetchDashboardData_stats calls) =
          Fin (real (successfulCallsCount calls) / real (totalCalls (fetchDashboardData_stats calls)) * 100)"
    using successRate_formula [of calls] c by simp
  have len: "length scenario_calls = 10"
    by (simp add: scenario_calls_def)
  have f: "totalCalls (fetchDashboardData_stats scenario_calls) = 10"
    by (simp add: fetchDashboardData_stats_def Let_def len)
  have ne: "scenario_calls \<noteq> []"
    using len by auto
  have g: "successRate (fetchDashboardData_stats scenario_calls) = Fin 40"
    using successRate_formula [OF ne] by (simp add: scenario_successful len)
  from a b b1 b2 c d e f scenario_successful g show ?thesis by blast
qed

theorem C5_success_rate_witness:
  "is_successful (mk_call 1 (Some (Some ''ok'')))
   \<and> \<not> is_successful (mk_call 5 (Some (Some ''warning'')))
   \<and> \<not> is_successful (mk_call 7 None)
   \<and> successRate (fetchDashboardData_stats [mk_call 1 (Some (Some ''ok'')), mk_call 7 None]) = Fin 50"
proof -
  have ne: "[mk_call 1 (Some (Some ''ok'')), mk_call 7 None] \<noteq> []" by simp
  have s1: "is_successful (mk_call 1 (Some (Some ''ok'')))"
    by (simp add: is_successful_def first_analysis_def mk_call_def)
  have s5: "\<not> is_successful (mk_call 5 (Some (Some ''warning'')))"
    by (simp add: is_successful_def first_analysis_def mk_call_def)
  have n7: "first_analysis (mk_call 7 None) = None"
    by (simp add: first_analysis_def mk_call_def)
  note t = C5_success_rate [of "mk_call 7 None" "[mk_call 1 (Some (Some ''ok'')), mk_call 7 None]"]
  have s7: "\<not> is_successful (mk_call 7 None)"
    using t n7 by (elim conjE) simp
  have cnt: "successfulCallsCount [mk_call 1 (Some (Some ''ok'')), mk_call 7 None] = 1"
    by (simp add: successfulCallsCount_def s1 s7)
  have tot: "totalCalls (fetchDashboardData_stats [mk_call 1 (Some (Some ''ok'')), mk_call 7 None]) = 2"
    using t by (elim conjE) simp
  have "successRate (fetchDashboardData_stats [mk_call 1 (Some (Some ''ok'')), mk_call 7 None])
        = Fin (real (successfulCallsCount [mk_call 1 (Some (Some ''ok'')), mk_call 7 None])
               / real (totalCalls (fetchDashboardData_stats [mk_call 1 (Some (Some ''ok'')), mk_call 7 None])) * 100)"
    using t ne by (elim conjE) blast
  then have "successRate (fetchDashboardData_stats [mk_call 1 (Some (Some ''ok'')), mk_call 7 None]) = Fin 50"
    by (simp add: cnt tot)
  with s1 s5 s7 show ?thesis by blast
qed

section \<open>Analytics: the frequency aggregator (countOccurrences)\<close>

subsection \<open>Counting labels\<close>

lemma count_keys_Some:
  "set ks \<inter> set object_prototype_keys = {} \<Longrightarrow> count_keys c ks = Some (foldl bump c ks)"
  by (induction ks arbitrary: c) (auto simp: increment_def)

lemma count_array_Some:
  "set (string_elements xs) \<inter> set object_prototype_keys = {} \<Longrightarrow>
   count_array c xs = Some (foldl bump c (string_elements xs))"
  by (induction c xs rule: count_array.induct) (auto simp: increment_def)

lemma count_item_Some:
  "set (counted_labels it) \<inter> set object_prototype_keys = {} \<Longrightarrow>
   count_item c it = Some (foldl bump c (counted_labels it))"
  by (cases it) (simp_all add: count_keys_Some count_array_Some)

lemma count_items_Some:
  "set (all_labels items) \<inter> set object_prototype_keys = {} \<Longrightarrow>
   count_items c items = Some (foldl bump c (all_labels items))"
proof (induction items arbitrary: c)
  case Nil
  then show ?case by (simp add: all_labels_def)
next
  case (Cons it items)
  from Cons.prems have a: "set (counted_labels it) \<inter> set object_prototype_keys = {}"
    and b: "set (all_labels items) \<inter> set object_prototype_keys = {}"
    by (auto simp: all_labels_def)
  show ?case
    using Cons.IH [OF b] count_item_Some [OF a] by (simp add: all_labels_def)
qed

lemma count_of_bump: "count_of (bump c k) l = count_of c l + (if l = k then 1 else 0)"
  by (induction c k rule: bump.induct) (auto simp: count_of_def)

lemma count_of_Nil: "count_of [] l = 0"
  by (simp add: count_of_def)

lemma count_of_foldl_bump: "count_of (foldl bump c L) l = count_of c l + count_list L l"
  by (induction L arbitrary: c) (auto simp: count_of_bump)

lemma keys_bump:
  "map fst (bump c k) = (if k \<in> set (map fst c) then map fst c else map fst c @ [k])"
  by (induction c k rule: bump.induct) auto

lemma distinct_bump: "distinct (map fst c) \<Longrightarrow> distinct (map fst (bump c k))"
  by (simp add: keys_bump)

lemma distinct_foldl_bump: "distinct (map fst c) \<Longrightarrow> distinct (map fst (foldl bump c L))"
  by (induction L arbitrary: c) (auto simp: distinct_bump)

lemma set_keys_bump: "fst ` set (bump c k) = insert k (fst ` set c)"
  by (induction c k rule: bump.induct) auto

lemma set_keys_foldl_bump: "fst ` set (foldl bump c L) = fst ` set c \<union> set L"
  by (induction L arbitrary: c) (simp_all add: set_keys_bump)

lemma count_of_member:
  "distinct (map fst c) \<Longrightarrow> (l, n) \<in> set c \<Longrightarrow> count_of c l = n"
  by (simp add: count_of_def)

lemma first_pos_append_in: "a \<in> set L \<Longrightarrow> first_pos (L @ M) a = first_pos L a"
  by (simp add: first_pos_def takeWhile_append1)

lemma first_pos_less: "a \<in> set L \<Longrightarrow> first_pos L a < length L"
  by (induction L) (auto simp: first_pos_def)

lemma first_pos_snoc_new: "a \<notin> set L \<Longrightarrow> first_pos (L @ [a]) a = length L"
  by (induction L) (auto simp: first_pos_def)

lemma keys_order_foldl_bump:
  "sorted_wrt (\<lambda>a b. first_pos L a < first_pos L b) (map fst (foldl bump [] L))"
proof (induction L rule: rev_induct)
  case Nil
  then show ?case by simp
next
  case (snoc k L)
  let ?c = "foldl bump [] L"
  have keys: "fst ` set ?c = set L" using set_keys_foldl_bump [of "[]" L] by simp
  have old: "sorted_wrt (\<lambda>a b. first_pos (L @ [k]) a < first_pos (L @ [k]) b) (map fst ?c)"
  proof (rule sorted_wrt_mono_rel [OF _ snoc.IH])
    fix a b assume "a \<in> set (map fst ?c)" "b \<in> set (map fst ?c)" "first_pos L a < first_pos L b"
    then show "first_pos (L @ [k]) a < first_pos (L @ [k]) b"
      using keys by (simp add: first_pos_append_in)
  qed
  show ?case
  proof (cases "k \<in> set L")
    case True
    then show ?thesis using old keys by (simp add: keys_bump)
  next
    case False
    have "\<forall>a\<in>set L. first_pos (L @ [k]) a < first_pos (L @ [k]) k"
      using False first_pos_less first_pos_append_in first_pos_snoc_new by metis
    then show ?thesis using old keys False
      by (simp add: keys_bump sorted_wrt_append)
  qed
qed

lemma ties_sorted_if_groups_sorted:
  "(\<And>k. sorted_wrt R (filter (\<lambda>y. f y = k) ys)) \<Longrightarrow>
   sorted_wrt (\<lambda>a b. f a = f b \<longrightarrow> R a b) ys"
proof (induction ys)
  case Nil
  then show ?case by simp
next
  case (Cons y ys)
  have tail: "sorted_wrt R (filter (\<lambda>z. f z = k) ys)" for k
    using Cons.prems [of k] by (cases "f y = k") simp_all
  have hd: "\<forall>b\<in>set ys. f y = f b \<longrightarrow> R y b"
    using Cons.prems [of "f y"] by auto
  from Cons.IH [OF tail] hd show ?case by simp
qed

lemma stable_sort_ties:
  assumes "sorted_wrt R xs"
  shows "sorted_wrt (\<lambda>a b. f a = f b \<longrightarrow> R a b) (sort_key f xs)"
proof (rule ties_sorted_if_groups_sorted)
  fix k
  show "sorted_wrt R (filter (\<lambda>y. f y = k) (sort_key f xs))"
    using assms by (simp add: sort_key_stable sorted_wrt_filter)
qed

lemma Object_entries_order:
  assumes "sorted_wrt (\<lambda>a b. first_pos L a < first_pos L b) (map fst c)"
  shows "sorted_wrt (\<lambda>a b. enum_before L (fst a) (fst b)) (Object_entries c)"
proof -
  let ?g = "\<lambda>e::string \<times> nat. digits_value (fst e)"
  let ?I = "filter (\<lambda>e. is_array_index (fst e)) c"
  let ?N = "filter (\<lambda>e. \<not> is_array_index (fst e)) c"
  have "sorted (map ?g (sort_key ?g ?I))" by (rule sorted_sort_key)
  then have "sorted_wrt (\<lambda>a b. ?g a \<le> ?g b) (sort_key ?g ?I)"
    by (simp add: sorted_map)
  then have one: "sorted_wrt (\<lambda>a b. enum_before L (fst a) (fst b)) (sort_key ?g ?I)"
    by (rule sorted_wrt_mono_rel [rotated]) (auto simp: enum_before_def)
  have "sorted_wrt (\<lambda>a b. first_pos L (fst a) < first_pos L (fst b)) c"
    using assms by (simp add: sorted_wrt_map)
  then have "sorted_wrt (\<lambda>a b. first_pos L (fst a) < first_pos L (fst b)) ?N"
    by (rule sorted_wrt_filter)
  then have two: "sorted_wrt (\<lambda>a b. enum_before L (fst a) (fst b)) ?N"
    by (rule sorted_wrt_mono_rel [rotated]) (auto simp: enum_before_def)
  have three: "\<forall>a\<in>set (sort_key ?g ?I). \<forall>b\<in>set ?N. enum_before L (fst a) (fst b)"
    by (auto simp: enum_before_def)
  from one two three show ?thesis
    unfolding Object_entries_def sorted_wrt_append by blast
qed

lemma set_Object_entries: "set (Object_entries c) = set c"
  by (auto simp: Object_entries_def)

lemma length_Object_entries: "length (Object_entries c) = length c"
  by (simp add: Object_entries_def sum_length_filter_compl)

lemma top5_length: "length (top5 c) = min 5 (length c)"
  by (simp add: top5_def length_Object_entries min.commute)

lemma top5_subset: "set (top5 c) \<subseteq> set c"
  using set_take_subset [of 5 "sort_key (\<lambda>e. - int (snd e)) (Object_entries c)"]
  by (simp add: top5_def set_Object_entries)

lemma top5_descending: "sorted_wrt (\<lambda>a b. snd b \<le> snd a) (top5 c)"
proof -
  let ?f = "\<lambda>e::string \<times> nat. - int (snd e)"
  have "sorted (map ?f (sort_key ?f (Object_entries c)))" by (rule sorted_sort_key)
  then have "sorted_wrt (\<lambda>a b. ?f a \<le> ?f b) (sort_key ?f (Object_entries c))"
    by (simp add: sorted_map)
  then have "sorted_wrt (\<lambda>a b. snd b \<le> snd a) (sort_key ?f (Object_entries c))"
    by (rule sorted_wrt_mono_rel [rotated]) simp
  then show ?thesis unfolding top5_def by (rule sorted_wrt_take)
qed

lemma top5_ties:
  assumes "sorted_wrt (\<lambda>a b. first_pos L a < first_pos L b) (map fst c)"
  shows "sorted_wrt (\<lambda>a b. snd a = snd b \<longrightarrow> enum_before L (fst a) (fst b)) (top5 c)"
proof -
  let ?f = "\<lambda>e::string \<times> nat. - int (snd e)"
  have "sorted_wrt (\<lambda>a b. ?f a = ?f b \<longrightarrow> enum_before L (fst a) (fst b))
          (sort_key ?f (Object_entries c))"
    by (rule stable_sort_ties [OF Object_entries_order [OF assms]])
  then have "sorted_wrt (\<lambda>a b. snd a = snd b \<longrightarrow> enum_before L (fst a) (fst b))
          (sort_key ?f (Object_entries c))"
    by (rule sorted_wrt_mono_rel [rotated]) simp
  then show ?thesis unfolding top5_def by (rule sorted_wrt_take)
qed

text \<open>The entries cut off by the slice have counts no larger than those kept.\<close>

lemma top5_dominates:
  assumes "e \<in> set c" "e \<notin> set (top5 c)" "e' \<in> set (top5 c)"
  shows "snd e \<le> snd e'"
proof -
  let ?f = "\<lambda>e::string \<times> nat. - int (snd e)"
  let ?s = "sort_key ?f (Object_entries c)"
  have "sorted (map ?f ?s)" by (rule sorted_sort_key)
  then have "sorted_wrt (\<lambda>a b. snd b \<le> snd a) ?s"
    by (simp add: sorted_map)
  then have "sorted_wrt (\<lambda>a b. snd b \<le> snd a) (take 5 ?s @ drop 5 ?s)" by simp
  then have cross: "\<forall>a\<in>set (take 5 ?s). \<forall>b\<in>set (drop 5 ?s). snd b \<le> snd a"
    unfolding sorted_wrt_append by blast
  have "e \<in> set ?s" using assms(1) by (simp add: set_Object_entries)
  then have "e \<in> set (take 5 ?s) \<union> set (drop 5 ?s)"
    by (metis append_take_drop_id set_append)
  then have "e \<in> set (drop 5 ?s)" using assms(2) by (simp add: top5_def)
  then show ?thesis using cross assms(3) by (simp add: top5_def)
qed

subsection \<open>The counter and the ranking\<close>

lemmas eval_count =
  countOccurrences_def top5_def Object_entries_def increment_def object_prototype_keys_def
  is_array_index_def is_digit_def digits_value_def digit_value_def

lemma counter_of_items:
  assumes "set (all_labels items) \<inter> set object_prototype_keys = {}"
  shows "count_items [] items = Some (foldl bump [] (all_labels items))"
    and "countOccurrences items = Some (top5 (foldl bump [] (all_labels items)))"
    and "distinct (map fst (foldl bump [] (all_labels items)))"
    and "fst ` set (foldl bump [] (all_labels items)) = set (all_labels items)"
    and "count_of (foldl bump [] (all_labels items)) l = count_list (all_labels items) l"
  using count_items_Some [OF assms, of "[]"]
  by (simp_all add: countOccurrences_def distinct_foldl_bump set_keys_foldl_bump
      count_of_foldl_bump count_of_Nil)

lemma entry_count:
  assumes "e \<in> set (foldl bump [] L)"
  shows "snd e = count_list L (fst e)"
proof -
  have "distinct (map fst (foldl bump [] L))" by (simp add: distinct_foldl_bump)
  then have "count_of (foldl bump [] L) (fst e) = snd e"
    using assms count_of_member [of "foldl bump [] L" "fst e" "snd e"] by simp
  then show ?thesis by (simp add: count_of_foldl_bump count_of_Nil)
qed

lemma normalized_counted: "\<not> bare_string it \<Longrightarrow> normalized it = counted_labels it"
  by (cases it) (simp_all add: bare_string_def)

lemma normalized_all_labels:
  "\<forall>it\<in>set items. \<not> bare_string it \<Longrightarrow> concat (map normalized items) = all_labels items"
  by (induction items) (simp_all add: all_labels_def normalized_counted)

text \<open>
  C1 (amended).  For every input sequence without a bare string whose labels name no
  inherited property, where null gives no label, an array gives its string elements
  (elements that are not strings are skipped, not stringified) and a keyed object gives
  its key names: the counter holds exactly the labels of the concatenated
  normalizations, each once, with the number of its occurrences, and every entry of the
  returned table carries that number.
\<close>

theorem C1_normalization:
  assumes "\<forall>it\<in>set items. \<not> bare_string it"
    and "set (concat (map normalized items)) \<inter> set object_prototype_keys = {}"
  shows "(\<exists>c. count_items [] items = Some c
          \<and> distinct (map fst c)
          \<and> fst ` set c = set (concat (map normalized items))
          \<and> (\<forall>l. count_of c l = count_list (concat (map normalized items)) l))
    \<and> (\<exists>t. countOccurrences items = Some t
          \<and> (\<forall>e\<in>set t. snd e = count_list (concat (map normalized items)) (fst e)))"
proof -
  let ?L = "concat (map normalized items)"
  let ?c = "foldl bump [] ?L"
  have L: "all_labels items = ?L"
    using normalized_all_labels [OF assms(1)] by simp
  have "set (all_labels items) \<inter> set object_prototype_keys = {}"
    using assms(2) L by simp
  note f = counter_of_items [OF this, unfolded L]
  have one: "\<exists>c. count_items [] items = Some c
          \<and> distinct (map fst c)
          \<and> fst ` set c = set ?L
          \<and> (\<forall>l. count_of c l = count_list ?L l)"
    using f(1) f(3) f(4) f(5) by blast
  have "\<forall>e\<in>set (top5 ?c). snd e = count_list ?L (fst e)"
    using top5_subset [of ?c] entry_count [of _ ?L] by blast
  then have two: "\<exists>t. countOccurrences items = Some t
          \<and> (\<forall>e\<in>set t. snd e = count_list ?L (fst e))"
    using f(2) by blast
  from one two show ?thesis by simp
qed

theorem C1_normalization_witness:
  "\<exists>c. count_items [] example_items = Some c \<and> count_of c ''a'' = 1 \<and> count_of c ''b'' = 2"
proof -
  have h1: "\<forall>it\<in>set example_items. \<not> bare_string it"
    by (simp add: example_items_def bare_string_def)
  have L: "concat (map normalized example_items) = [''a'', ''b'', ''b'']"
    by (simp add: example_items_def)
  have h2: "set (concat (map normalized example_items)) \<inter> set object_prototype_keys = {}"
    unfolding L by (simp add: object_prototype_keys_def)
  from C1_normalization [OF h1 h2]
  obtain c where c: "count_items [] example_items = Some c"
    and n: "\<forall>l. count_of c l = count_list (concat (map normalized example_items)) l"
    by blast
  have "count_of c ''a'' = 1" "count_of c ''b'' = 2"
    using n unfolding L by simp_all
  with c show ?thesis by blast
qed

text \<open>
  C1 as stated fails: on the specification's own example the bare string \<open>a\<close> is not
  counted, so \<open>a\<close> has count 1; and the array element \<open>true\<close> is not stringified to a label.
\<close>

theorem C1_counterexample:
  "countOccurrences
     [JArray [JString ''a'', JString ''b''], JObject [(''b'', JBool True)], JString ''a'', JNull]
     = Some [(''b'', 2), (''a'', 1)]
   \<and> countOccurrences [JArray [JBool True, JString ''a'']] = Some [(''a'', 1)]"
  by (simp add: eval_count)

text \<open>The whole ranking, before the slice: every entry of the counter, by descending count, ties in enumeration order.\<close>

lemma ranking_full:
  assumes "distinct (map fst c)"
    and "sorted_wrt (\<lambda>a b. first_pos L a < first_pos L b) (map fst c)"
  shows "top5 c = take 5 (sort_key (\<lambda>e. - int (snd e)) (Object_entries c))"
    and "distinct (map fst (sort_key (\<lambda>e. - int (snd e)) (Object_entries c)))"
    and "set (sort_key (\<lambda>e. - int (snd e)) (Object_entries c)) = set c"
    and "sorted_wrt (\<lambda>a b. snd b \<le> snd a) (sort_key (\<lambda>e. - int (snd e)) (Object_entries c))"
    and "sorted_wrt (\<lambda>a b. snd a = snd b \<longrightarrow> enum_before L (fst a) (fst b))
           (sort_key (\<lambda>e. - int (snd e)) (Object_entries c))"
proof -
  let ?f = "\<lambda>e::string \<times> nat. - int (snd e)"
  let ?s = "sort_key ?f (Object_entries c)"
  show "top5 c = take 5 ?s" by (simp add: top5_def)
  have "distinct (map fst (Object_entries c))"
    using assms(1) by (auto simp: Object_entries_def distinct_map inj_on_def)
  then show "distinct (map fst ?s)" by (simp add: distinct_map)
  show "set ?s = set c" by (simp add: set_Object_entries)
  have "sorted (map ?f ?s)" by (rule sorted_sort_key)
  then have "sorted_wrt (\<lambda>a b. ?f a \<le> ?f b) ?s" by (simp add: sorted_map)
  then show "sorted_wrt (\<lambda>a b. snd b \<le> snd a) ?s"
    by (rule sorted_wrt_mono_rel [rotated]) simp
  have "sorted_wrt (\<lambda>a b. ?f a = ?f b \<longrightarrow> enum_before L (fst a) (fst b)) ?s"
    by (rule stable_sort_ties [OF Object_entries_order [OF assms(2)]])
  then show "sorted_wrt (\<lambda>a b. snd a = snd b \<longrightarrow> enum_before L (fst a) (fst b)) ?s"
    by (rule sorted_wrt_mono_rel [rotated]) simp
qed

text \<open>An entry cut off by the slice that ties with an entry kept comes after it in the enumeration.\<close>

lemma top5_cut_ties:
  assumes "sorted_wrt (\<lambda>a b. first_pos L a < first_pos L b) (map fst c)"
    and "x \<in> set c" "x \<notin> set (top5 c)" "e \<in> set (top5 c)" "snd x = snd e"
  shows "enum_before L (fst e) (fst x)"
proof -
  let ?f = "\<lambda>e::string \<times> nat. - int (snd e)"
  let ?s = "sort_key ?f (Object_entries c)"
  have "sorted_wrt (\<lambda>a b. ?f a = ?f b \<longrightarrow> enum_before L (fst a) (fst b)) ?s"
    by (rule stable_sort_ties [OF Object_entries_order [OF assms(1)]])
  then have "sorted_wrt (\<lambda>a b. ?f a = ?f b \<longrightarrow> enum_before L (fst a) (fst b))
      (take 5 ?s @ drop 5 ?s)" by simp
  then have cross: "\<forall>a\<in>set (take 5 ?s). \<forall>b\<in>set (drop 5 ?s).
      ?f a = ?f b \<longrightarrow> enum_before L (fst a) (fst b)"
    unfolding sorted_wrt_append by blast
  have "x \<in> set ?s" using assms(2) by (simp add: set_Object_entries)
  then have "x \<in> set (take 5 ?s) \<union> set (drop 5 ?s)"
    by (metis append_take_drop_id set_append)
  then have "x \<in> set (drop 5 ?s)" using assms(3) by (simp add: top5_def)
  moreover have "e \<in> set (take 5 ?s)" using assms(4) by (simp add: top5_def)
  ultimately show ?thesis using cross assms(5) by simp
qed

text \<open>
  C2 (amended).  For every input whose labels name no inherited property the table is
  the first five entries of the ranking of all labels: the ranking holds every label
  once with its occurrence count, is sorted by descending count, and has entries with
  equal counts in the enumeration order of \<open>Object.entries\<close> (array-index labels first,
  ascending, then the other labels by first occurrence).  So the table has min(5, number
  of distinct labels) entries, no label left out has a larger count than an entry, and a
  label left out that ties with an entry comes after it in the enumeration order.  When
  no label is an array index, ties are in first-occurrence order, also across the cut.
\<close>

theorem C2_ranking:
  assumes "set (all_labels items) \<inter> set object_prototype_keys = {}"
  shows "\<exists>t. countOccurrences items = Some t
      \<and> length t \<le> 5
      \<and> length t = min 5 (card (set (all_labels items)))
      \<and> distinct (map fst t)
      \<and> (\<forall>e\<in>set t. snd e = count_list (all_labels items) (fst e))
      \<and> sorted_wrt (\<lambda>a b. snd b \<le> snd a) t
      \<and> sorted_wrt (\<lambda>a b. snd a = snd b \<longrightarrow> enum_before (all_labels items) (fst a) (fst b)) t
      \<and> (\<forall>l\<in>set (all_labels items). l \<notin> fst ` set t \<longrightarrow>
            (\<forall>e\<in>set t. count_list (all_labels items) l \<le> snd e
               \<and> (count_list (all_labels items) l = snd e \<longrightarrow>
                    enum_before (all_labels items) (fst e) l)))
      \<and> (\<exists>full. t = take 5 full
            \<and> distinct (map fst full)
            \<and> fst ` set full = set (all_labels items)
            \<and> (\<forall>e\<in>set full. snd e = count_list (all_labels items) (fst e))
            \<and> sorted_wrt (\<lambda>a b. snd b \<le> snd a) full
            \<and> sorted_wrt (\<lambda>a b. snd a = snd b \<longrightarrow>
                  enum_before (all_labels items) (fst a) (fst b)) full)
      \<and> ((\<forall>l\<in>set (all_labels items). \<not> is_array_index l) \<longrightarrow>
            sorted_wrt (\<lambda>a b. snd a = snd b \<longrightarrow>
               first_pos (all_labels items) (fst a) < first_pos (all_labels items) (fst b)) t
            \<and> (\<forall>l\<in>set (all_labels items). l \<notin> fst ` set t \<longrightarrow>
                 (\<forall>e\<in>set t. count_list (all_labels items) l = snd e \<longrightarrow>
                    first_pos (all_labels items) (fst e) < first_pos (all_labels items) l)))"
proof -
  let ?L = "all_labels items"
  let ?c = "foldl bump [] ?L"
  let ?t = "top5 ?c"
  let ?full = "sort_key (\<lambda>e. - int (snd e)) (Object_entries ?c)"
  note f = counter_of_items [OF assms]
  note r = ranking_full [OF f(3) keys_order_foldl_bump [of ?L]]
  have len: "length ?c = card (set ?L)"
    using f(3) f(4) distinct_card [of "map fst ?c"] by simp
  have a: "length ?t \<le> 5" by (simp add: top5_length)
  have b: "length ?t = min 5 (card (set ?L))" by (simp add: top5_length len)
  have c: "distinct (map fst ?t)"
    unfolding r(1) take_map [symmetric] using r(2) by (rule distinct_take)
  have d: "\<forall>e\<in>set ?t. snd e = count_list ?L (fst e)"
    using top5_subset [of ?c] entry_count [of _ ?L] by blast
  have e: "sorted_wrt (\<lambda>a b. snd b \<le> snd a) ?t" by (rule top5_descending)
  have g: "sorted_wrt (\<lambda>a b. snd a = snd b \<longrightarrow> enum_before ?L (fst a) (fst b)) ?t"
    by (rule top5_ties [OF keys_order_foldl_bump])
  have h: "\<forall>l\<in>set ?L. l \<notin> fst ` set ?t \<longrightarrow>
      (\<forall>e\<in>set ?t. count_list ?L l \<le> snd e
         \<and> (count_list ?L l = snd e \<longrightarrow> enum_before ?L (fst e) l))"
  proof (intro ballI impI conjI)
    fix l e assume l: "l \<in> set ?L" "l \<notin> fst ` set ?t" and e: "e \<in> set ?t"
    from l(1) f(4) have "l \<in> fst ` set ?c" by simp
    then obtain x where x: "x \<in> set ?c" "fst x = l" by (elim imageE) simp
    then have nx: "x \<notin> set ?t" using l(2) by auto
    have cx: "snd x = count_list ?L l" using entry_count [OF x(1)] x(2) by simp
    have "snd x \<le> snd e" using top5_dominates [OF x(1) nx e] by simp
    then show "count_list ?L l \<le> snd e" using cx by simp
    assume "count_list ?L l = snd e"
    then have "snd x = snd e" using cx by simp
    from top5_cut_ties [OF keys_order_foldl_bump x(1) nx e this] x(2)
    show "enum_before ?L (fst e) l" by simp
  qed
  have k: "\<exists>full. ?t = take 5 full
            \<and> distinct (map fst full)
            \<and> fst ` set full = set ?L
            \<and> (\<forall>e\<in>set full. snd e = count_list ?L (fst e))
            \<and> sorted_wrt (\<lambda>a b. snd b \<le> snd a) full
            \<and> sorted_wrt (\<lambda>a b. snd a = snd b \<longrightarrow> enum_before ?L (fst a) (fst b)) full"
  proof (intro exI conjI)
    show "?t = take 5 ?full" by (rule r(1))
    show "distinct (map fst ?full)" by (rule r(2))
    show "fst ` set ?full = set ?L" using r(3) f(4) by simp
    show "\<forall>e\<in>set ?full. snd e = count_list ?L (fst e)"
      using r(3) entry_count [of _ ?L] by blast
    show "sorted_wrt (\<lambda>a b. snd b \<le> snd a) ?full" by (rule r(4))
    show "sorted_wrt (\<lambda>a b. snd a = snd b \<longrightarrow> enum_before ?L (fst a) (fst b)) ?full"
      by (rule r(5))
  qed
  have i: "(\<forall>l\<in>set ?L. \<not> is_array_index l) \<longrightarrow>
            sorted_wrt (\<lambda>a b. snd a = snd b \<longrightarrow> first_pos ?L (fst a) < first_pos ?L (fst b)) ?t
            \<and> (\<forall>l\<in>set ?L. l \<notin> fst ` set ?t \<longrightarrow>
                 (\<forall>e\<in>set ?t. count_list ?L l = snd e \<longrightarrow>
                    first_pos ?L (fst e) < first_pos ?L l))"
  proof (intro impI conjI)
    assume no: "\<forall>l\<in>set ?L. \<not> is_array_index l"
    have keys: "\<forall>e\<in>set ?t. fst e \<in> set ?L"
      using top5_subset [of ?c] f(4) by auto
    show "sorted_wrt (\<lambda>a b. snd a = snd b \<longrightarrow> first_pos ?L (fst a) < first_pos ?L (fst b)) ?t"
      by (rule sorted_wrt_mono_rel [OF _ g]) (use no keys in \<open>auto simp: enum_before_def\<close>)
    show "\<forall>l\<in>set ?L. l \<notin> fst ` set ?t \<longrightarrow>
                 (\<forall>e\<in>set ?t. count_list ?L l = snd e \<longrightarrow>
                    first_pos ?L (fst e) < first_pos ?L l)"
    proof (intro ballI impI)
      fix l e assume l: "l \<in> set ?L" "l \<notin> fst ` set ?t" and e: "e \<in> set ?t"
        and tie: "count_list ?L l = snd e"
      from h l e tie have "enum_before ?L (fst e) l" by blast
      moreover have "\<not> is_array_index (fst e)" using no keys e by blast
      ultimately show "first_pos ?L (fst e) < first_pos ?L l"
        by (simp add: enum_before_def)
    qed
  qed
  from f(2) a b c d e g h k i show ?thesis by blast
qed

theorem C2_ranking_witness:
  "(\<exists>t. countOccurrences cut_items = Some t \<and> length t = 5
      \<and> ''f'' \<in> fst ` set t
      \<and> t = [(''f'', 1), (''e'', 1), (''d'', 1), (''c'', 1), (''b'', 1)])
   \<and> (\<exists>t. countOccurrences tie_items = Some t \<and> length t \<le> 5
      \<and> sorted_wrt (\<lambda>a b. snd b \<le> snd a) t
      \<and> t = [(''b'', 2), (''9'', 1), (''10'', 1), (''a'', 1)])"
proof -
  have L: "all_labels tie_items = [''b'', ''10'', ''9'', ''a'', ''b'']"
    by (simp add: tie_items_def all_labels_def)
  have h: "set (all_labels tie_items) \<inter> set object_prototype_keys = {}"
    unfolding L by (simp add: object_prototype_keys_def)
  from C2_ranking [OF h]
  obtain t where t: "countOccurrences tie_items = Some t" "length t \<le> 5"
      "sorted_wrt (\<lambda>a b. snd b \<le> snd a) t"
    by blast
  have "countOccurrences tie_items = Some [(''b'', 2), (''9'', 1), (''10'', 1), (''a'', 1)]"
    by (simp add: tie_items_def eval_count)
  with t have one: "\<exists>t. countOccurrences tie_items = Some t \<and> length t \<le> 5
      \<and> sorted_wrt (\<lambda>a b. snd b \<le> snd a) t
      \<and> t = [(''b'', 2), (''9'', 1), (''10'', 1), (''a'', 1)]" by simp
  let ?L = "all_labels cut_items"
  have L2: "?L = [''f'', ''e'', ''d'', ''c'', ''b'', ''a'']"
    by (simp add: cut_items_def all_labels_def)
  have h2: "set ?L \<inter> set object_prototype_keys = {}"
    unfolding L2 by (simp add: object_prototype_keys_def)
  have card: "card (set ?L) = 6"
    unfolding L2 by simp
  have once: "\<forall>l\<in>set ?L. count_list ?L l = 1 \<and> \<not> is_array_index l"
    unfolding L2 by (simp add: is_array_index_def is_digit_def)
  have first: "first_pos ?L ''f'' = 0"
    unfolding L2 by (simp add: first_pos_def)
  obtain u full where u: "countOccurrences cut_items = Some u"
      "length u = min 5 (card (set ?L))"
      "\<forall>e\<in>set u. snd e = count_list ?L (fst e)"
      "\<forall>l\<in>set ?L. l \<notin> fst ` set u \<longrightarrow>
         (\<forall>e\<in>set u. count_list ?L l \<le> snd e
            \<and> (count_list ?L l = snd e \<longrightarrow> enum_before ?L (fst e) l))"
      "u = take 5 full" "fst ` set full = set ?L"
    using C2_ranking [OF h2] by (elim exE conjE) (rule that, assumption+)
  have len: "length u = 5" using u(2) card by simp
  have kept: "''f'' \<in> fst ` set u"
  proof (rule ccontr)
    assume n: "''f'' \<notin> fst ` set u"
    from len obtain e where e: "e \<in> set u" by (cases u) auto
    then have "e \<in> set full" using u(5) in_set_takeD by metis
    then have m: "fst e \<in> set ?L" using u(6) by auto
    have fL: "''f'' \<in> set ?L" unfolding L2 by simp
    have "snd e = 1" using u(3) e m once by simp
    then have "count_list ?L ''f'' = snd e" using once fL by simp
    then have "enum_before ?L (fst e) ''f''" using u(4) fL n e by blast
    then show False using once m first by (simp add: enum_before_def)
  qed
  have "countOccurrences cut_items
      = Some [(''f'', 1), (''e'', 1), (''d'', 1), (''c'', 1), (''b'', 1)]"
    by (simp add: cut_items_def eval_count)
  with u(1) len kept have two: "\<exists>t. countOccurrences cut_items = Some t \<and> length t = 5
      \<and> ''f'' \<in> fst ` set t
      \<and> t = [(''f'', 1), (''e'', 1), (''d'', 1), (''c'', 1), (''b'', 1)]" by simp
  from two one show ?thesis by blast
qed

text \<open>
  C2 as stated fails: the labels \<open>2\<close> and \<open>1\<close> both occur once and \<open>2\<close> is met first, yet
  \<open>1\<close> is ranked first.
\<close>

theorem C2_counterexample:
  "countOccurrences [JArray [JString ''2'', JString ''1'']] = Some [(''1'', 1), (''2'', 1)]
   \<and> all_labels [JArray [JString ''2'', JString ''1'']] = [''2'', ''1'']
   \<and> first_pos [''2'', ''1''] ''2'' < first_pos [''2'', ''1''] ''1''"
  by (simp add: eval_count all_labels_def first_pos_def)

section \<open>Analytics and the analysis table: classification and confidence\<close>

lemma foldl_plus_start: "foldl (\<lambda>s c. s + f c) a xs = a + foldl (\<lambda>s c. s + f c) (0::'a::comm_monoid_add) xs"
proof (induction xs arbitrary: a)
  case Nil
  then show ?case by simp
next
  case (Cons x xs)
  show ?case using Cons.IH [of "a + f x"] Cons.IH [of "f x"] by (simp add: add.assoc)
qed

lemma totalDuration_sum: "totalDuration calls = sum_list (map duration_or_zero calls)"
proof (induction calls)
  case Nil
  then show ?case by (simp add: totalDuration_def)
next
  case (Cons c calls)
  then show ?case
    using foldl_plus_start [of duration_or_zero "duration_or_zero c" calls]
    by (simp add: totalDuration_def)
qed

lemma stats_finite:
  "is_finite (avgDuration (fetchDashboardData_stats calls))" "is_finite (successRate (fetchDashboardData_stats calls))"
  by (simp_all add: fetchDashboardData_stats_def Let_def js_div_def times100_def is_finite_def)

lemma avgDuration_formula:
  "calls \<noteq> [] \<Longrightarrow>
   avgDuration (fetchDashboardData_stats calls) =
     Fin (real_of_int (totalDuration calls) / real (length calls))"
  by (simp add: fetchDashboardData_stats_def Let_def js_div_def)

lemma avgConfidence_none:
  assumes "analysisData \<noteq> []" "\<forall>d\<in>set analysisData. agent_confidence d = None"
  shows "avgConfidence analysisData = Some NaN"
proof -
  have "confident analysisData = []"
    using assms(2) by (simp add: confident_def)
  then show ?thesis using assms(1) by (simp add: avgConfidence_def js_div_def)
qed

lemma avgConfidence_some:
  assumes "\<exists>d\<in>set analysisData. agent_confidence d \<noteq> None"
  shows "avgConfidence analysisData =
     Some (Fin (sum_list (map confidence_or_zero (confident analysisData))
          / real (length (confident analysisData))))"
proof -
  have ne: "analysisData \<noteq> []" using assms by auto
  have "confident analysisData \<noteq> []"
    using assms by (auto simp: confident_def filter_empty_conv)
  moreover have "foldl (\<lambda>acc d. acc + confidence_or_zero d) 0 xs
      = sum_list (map confidence_or_zero xs)" for xs
  proof (induction xs)
    case Nil
    then show ?case by simp
  next
    case (Cons x xs)
    then show ?case using foldl_plus_start [of confidence_or_zero "confidence_or_zero x" xs] by simp
  qed
  ultimately show ?thesis using ne by (simp add: avgConfidence_def js_div_def)
qed

text \<open>
  C6 (amended).  The average duration and the success rate of an empty record set are 0;
  for a non-empty record set the average duration is the sum of the durations, a null
  duration counting as 0, divided by the number of records; both statistics are finite
  for every record set.  Without analysis rows there is no aggregation output.  For a
  non-empty set of rows without any non-null confidence the average confidence is NaN in
  the aggregation output (it is the card that shows it as not available); with at least
  one non-null confidence it is the finite mean of the non-null confidences.
\<close>

theorem C6_fallbacks:
  "avgDuration (fetchDashboardData_stats []) = Fin 0
   \<and> successRate (fetchDashboardData_stats []) = Fin 0
   \<and> is_finite (avgDuration (fetchDashboardData_stats calls))
   \<and> is_finite (successRate (fetchDashboardData_stats calls))
   \<and> (calls \<noteq> [] \<longrightarrow>
        avgDuration (fetchDashboardData_stats calls) =
          Fin (real_of_int (sum_list (map duration_or_zero calls)) / real (length calls)))
   \<and> totalDuration calls = sum_list (map duration_or_zero calls)
   \<and> (call_duration c = None \<longrightarrow> duration_or_zero c = 0)
   \<and> avgConfidence [] = None
   \<and> confidenceCard [] = None
   \<and> (analysisData \<noteq> [] \<and> (\<forall>d\<in>set analysisData. agent_confidence d = None) \<longrightarrow>
        avgConfidence analysisData = Some NaN
        \<and> confidenceCard analysisData = Some NotAvailable)
   \<and> ((\<exists>d\<in>set analysisData. agent_confidence d \<noteq> None) \<longrightarrow>
        avgConfidence analysisData =
          Some (Fin (sum_list (map confidence_or_zero (confident analysisData))
               / real (length (confident analysisData)))))"
proof -
  have a: "avgDuration (fetchDashboardData_stats []) = Fin 0" "successRate (fetchDashboardData_stats []) = Fin 0"
    by (simp_all add: fetchDashboardData_stats_def)
  have a1: "calls \<noteq> [] \<longrightarrow>
        avgDuration (fetchDashboardData_stats calls) =
          Fin (real_of_int (sum_list (map duration_or_zero calls)) / real (length calls))"
    using avgDuration_formula [of calls] totalDuration_sum [of calls] by simp
  have b: "call_duration c = None \<longrightarrow> duration_or_zero c = 0"
    by (simp add: duration_or_zero_def)
  have n: "avgConfidence [] = None" "confidenceCard [] = None"
    by (simp_all add: avgConfidence_def confidenceCard_def)
  have d: "analysisData \<noteq> [] \<and> (\<forall>d\<in>set analysisData. agent_confidence d = None) \<longrightarrow>
        avgConfidence analysisData = Some NaN
        \<and> confidenceCard analysisData = Some NotAvailable"
    using avgConfidence_none [of analysisData]
    by (simp add: confidenceCard_def avgConfidenceText_def isNaN_def)
  have e: "(\<exists>d\<in>set analysisData. agent_confidence d \<noteq> None) \<longrightarrow>
        avgConfidence analysisData =
          Some (Fin (sum_list (map confidence_or_zero (confident analysisData))
               / real (length (confident analysisData))))"
    using avgConfidence_some [of analysisData] by blast
  from a a1 stats_finite [of calls] totalDuration_sum [of calls] b n d e show ?thesis by blast
qed

theorem C6_fallbacks_witness:
  "avgConfidence [conf_row None, conf_row None] = Some NaN
   \<and> confidenceCard [conf_row None, conf_row None] = Some NotAvailable
   \<and> avgConfidence [conf_row (Some 1), conf_row None, conf_row (Some 0)] = Some (Fin (1/2))
   \<and> avgDuration (fetchDashboardData_stats [mk_call 1 None, mk_call 2 None]) = Fin 60"
proof -
  have h1: "[conf_row None, conf_row None] \<noteq> []
      \<and> (\<forall>d\<in>set [conf_row None, conf_row None]. agent_confidence d = None)"
    by (simp add: conf_row_def)
  have h2: "\<exists>d\<in>set [conf_row (Some 1), conf_row None, conf_row (Some 0)].
      agent_confidence d \<noteq> None"
    by (simp add: conf_row_def)
  have h3: "[mk_call 1 None, mk_call 2 None] \<noteq> []" by simp
  have one: "avgConfidence [conf_row None, conf_row None] = Some NaN
      \<and> confidenceCard [conf_row None, conf_row None] = Some NotAvailable"
    using C6_fallbacks [of "[]" "mk_call 1 None" "[conf_row None, conf_row None]"] h1 by blast
  have "avgConfidence [conf_row (Some 1), conf_row None, conf_row (Some 0)] =
      Some (Fin (sum_list (map confidence_or_zero
             (confident [conf_row (Some 1), conf_row None, conf_row (Some 0)]))
           / real (length (confident [conf_row (Some 1), conf_row None, conf_row (Some 0)]))))"
    using C6_fallbacks [of "[]" "mk_call 1 None" "[conf_row (Some 1), conf_row None, conf_row (Some 0)]"] h2
    by blast
  then have two: "avgConfidence [conf_row (Some 1), conf_row None, conf_row (Some 0)] = Some (Fin (1/2))"
    by (simp add: confident_def conf_row_def confidence_or_zero_def)
  have "avgDuration (fetchDashboardData_stats [mk_call 1 None, mk_call 2 None]) =
      Fin (real_of_int (sum_list (map duration_or_zero [mk_call 1 None, mk_call 2 None]))
           / real (length [mk_call 1 None, mk_call 2 None]))"
    using C6_fallbacks [of "[mk_call 1 None, mk_call 2 None]" "mk_call 1 None" "[]"] h3 by blast
  then have three: "avgDuration (fetchDashboardData_stats [mk_call 1 None, mk_call 2 None]) = Fin 60"
    by (simp add: duration_or_zero_def mk_call_def)
  from one two three show ?thesis by blast
qed

text \<open>
  C6 as stated fails: with two rows and no confidence the aggregation output holds NaN, a
  non-finite number, not a sentinel.
\<close>

theorem C6_counterexample:
  "avgConfidence [conf_row None, conf_row None] = Some NaN
   \<and> map_option is_finite (avgConfidence [conf_row None, conf_row None]) = Some False"
  by (simp add: avgConfidence_def confident_def conf_row_def js_div_def is_finite_def)

lemma toLowerCase_Nil_iff: "toLowerCase s = [] \<longleftrightarrow> s = []"
  by (simp add: toLowerCase_def)

lemma sentimentCounts_counts:
  assumes "set (map (\<lambda>d. status_of (row_sentiment d)) analysisData) \<inter> set object_prototype_keys = {}"
  shows "\<exists>c. sentimentCounts analysisData = Some c
     \<and> (\<forall>l. count_of c l = count_list (map (\<lambda>d. status_of (row_sentiment d)) analysisData) l)"
  using count_keys_Some [OF assms, of "[]"]
  by (simp add: sentimentCounts_def count_of_foldl_bump count_of_Nil)

text \<open>
  C10 (amended).  The classification is a total function of the stored label: null and
  the empty label classify as \<open>unknown\<close>, and every other label, recognized or not,
  classifies as the label lower-cased.  A classification that is not one of the three
  known values of its kind carries the default styles, the ones of \<open>unknown\<close>.  The
  sentiment counts hold, for every key, the number of rows classified under it (for keys
  that name no inherited property).
\<close>

theorem C10_classifier:
  "status_of None = ''unknown''
   \<and> status_of (Some []) = ''unknown''
   \<and> (s \<noteq> [] \<longrightarrow> status_of (Some s) = toLowerCase s)
   \<and> StatusBadge t ty = (status_of t, badge_styles ty (status_of t))
   \<and> (\<not> recognized ty (status_of t) \<longrightarrow> snd (StatusBadge t ty) = default_styles)
   \<and> snd (StatusBadge None ty) = default_styles
   \<and> (set (map (\<lambda>d. status_of (row_sentiment d)) analysisData) \<inter> set object_prototype_keys = {} \<longrightarrow>
        (\<exists>c. sentimentCounts analysisData = Some c
           \<and> (\<forall>l. count_of c l = count_list (map (\<lambda>d. status_of (row_sentiment d)) analysisData) l)))"
proof -
  have a: "status_of None = ''unknown''" "status_of (Some []) = ''unknown''"
    by (simp_all add: status_of_def toLowerCase_def)
  have b: "s \<noteq> [] \<longrightarrow> status_of (Some s) = toLowerCase s"
    by (simp add: status_of_def toLowerCase_Nil_iff)
  have c: "StatusBadge t ty = (status_of t, badge_styles ty (status_of t))"
    by (simp add: StatusBadge_def)
  have d: "\<not> recognized ty (status_of t) \<longrightarrow> snd (StatusBadge t ty) = default_styles"
    by (cases ty) (simp_all add: StatusBadge_def recognized_def badge_styles_def)
  have e: "snd (StatusBadge None ty) = default_styles"
    by (cases ty) (simp_all add: StatusBadge_def badge_styles_def a)
  from a b c d e sentimentCounts_counts [of analysisData] show ?thesis by blast
qed

theorem C10_classifier_witness:
  "status_of (Some ''Positive'') = ''positive''
   \<and> StatusBadge (Some ''Mixed'') Sentiment = (''mixed'', default_styles)
   \<and> (\<exists>c. sentimentCounts [sentiment_row (Some ''Positive''), sentiment_row None,
                             sentiment_row (Some ''positive'')] = Some c
          \<and> count_of c ''positive'' = 2 \<and> count_of c ''unknown'' = 1)"
proof -
  let ?rows = "[sentiment_row (Some ''Positive''), sentiment_row None, sentiment_row (Some ''positive'')]"
  note t = C10_classifier [of "''Positive''" "Some ''Mixed''" Sentiment ?rows]
  have low: "toLowerCase ''Positive'' = ''positive''" "toLowerCase ''Mixed'' = ''mixed''"
    "toLowerCase ''positive'' = ''positive''"
    by (simp_all add: toLowerCase_def lower_char_def)
  have one: "status_of (Some ''Positive'') = ''positive''"
    using t low by (elim conjE) simp
  have st: "status_of (Some ''Mixed'') = ''mixed''" "status_of (Some ''positive'') = ''positive''"
    by (simp_all add: status_of_def low)
  have sn: "status_of None = ''unknown''"
    by (simp add: status_of_def)
  have nr: "\<not> recognized Sentiment (status_of (Some ''Mixed''))"
    by (simp add: st recognized_def)
  have "snd (StatusBadge (Some ''Mixed'') Sentiment) = default_styles"
    using t nr by (elim conjE) blast
  moreover have "fst (StatusBadge (Some ''Mixed'') Sentiment) = ''mixed''"
    by (simp add: StatusBadge_def st)
  ultimately have two: "StatusBadge (Some ''Mixed'') Sentiment = (''mixed'', default_styles)"
    by (simp add: prod_eq_iff)
  have keys: "map (\<lambda>d. status_of (row_sentiment d)) ?rows = [''positive'', ''unknown'', ''positive'']"
    by (simp add: sentiment_row_def one st sn)
  have h: "set (map (\<lambda>d. status_of (row_sentiment d)) ?rows) \<inter> set object_prototype_keys = {}"
    unfolding keys by (simp add: object_prototype_keys_def)
  have "\<exists>c. sentimentCounts ?rows = Some c
       \<and> (\<forall>l. count_of c l = count_list (map (\<lambda>d. status_of (row_sentiment d)) ?rows) l)"
    using t h by (elim conjE) blast
  then obtain c where c: "sentimentCounts ?rows = Some c"
    and n: "\<forall>l. count_of c l = count_list (map (\<lambda>d. status_of (row_sentiment d)) ?rows) l"
    by blast
  have "count_of c ''positive'' = 2" "count_of c ''unknown'' = 1"
    using n unfolding keys by simp_all
  with c have three: "\<exists>c. sentimentCounts ?rows = Some c
          \<and> count_of c ''positive'' = 2 \<and> count_of c ''unknown'' = 1"
    by blast
  from one two three show ?thesis by blast
qed

text \<open>
  C10 as stated fails: the unrecognized label \<open>Mixed\<close> classifies as \<open>mixed\<close>, not as
  \<open>unknown\<close>, in the badge and in the sentiment counts.
\<close>

theorem C10_counterexample:
  "\<not> recognized Sentiment ''mixed''
   \<and> fst (StatusBadge (Some ''Mixed'') Sentiment) = ''mixed''
   \<and> sentimentCounts [sentiment_row (Some ''Mixed'')] = Some [(''mixed'', 1)]"
  by (simp add: recognized_def StatusBadge_def status_of_def toLowerCase_def lower_char_def
      sentimentCounts_def sentiment_row_def increment_def object_prototype_keys_def)

section \<open>Analytics: the date window (fetchAnalytics)\<close>

lemma parseInt_tokens:
  "parseInt (remove_first CHR ''d'' (range_token Days7)) = Fin 7"
  "parseInt (remove_first CHR ''d'' (range_token Days30)) = Fin 30"
  "parseInt (remove_first CHR ''d'' (range_token Days90)) = Fin 90"
  by (simp_all add: range_token_def parseInt_def strip_sign_def is_space_def is_digit_def
      digits_value_def digit_value_def)

lemma MakeDate_Day: "MakeDate (Day t) (TimeWithinDay t) = t"
  by (simp add: MakeDate_def Day_def TimeWithinDay_def)

lemma fixed_zone_exists: "local_exists (fixed_zone off) l"
  by (simp add: local_exists_def fixed_zone_def)

lemma setHours_reads:
  "local_exists z (MakeDate (Day (LocalTime z d)) (MakeTime h m s x)) \<Longrightarrow>
   LocalTime z (setHours z h m s x d) = MakeDate (Day (LocalTime z d)) (MakeTime h m s x)"
  by (simp add: setHours_def local_exists_def)

lemma setDate_minus_reads:
  "local_exists z (MakeDate (Day (LocalTime z d) - k) (TimeWithinDay (LocalTime z d))) \<Longrightarrow>
   LocalTime z (setDate_minus z k d) = MakeDate (Day (LocalTime z d) - k) (TimeWithinDay (LocalTime z d))"
  by (simp add: setDate_minus_def local_exists_def Let_def)

lemma Day_MakeDate: "0 \<le> t \<Longrightarrow> t < msPerDay \<Longrightarrow> Day (MakeDate d t) = d"
  by (simp add: Day_def MakeDate_def msPerDay_def)

lemma TimeWithinDay_MakeDate: "0 \<le> t \<Longrightarrow> t < msPerDay \<Longrightarrow> TimeWithinDay (MakeDate d t) = t"
  by (simp add: TimeWithinDay_def MakeDate_def msPerDay_def)

text \<open>
  Where a clock change skips a local time, the dates are not at the local times named:
  in Havana on 10 March 2024 the start of \<open>today\<close> reads 01:00, and in New York at 02:30
  on 17 March 2024 the analytics bound of \<open>7d\<close> reads 03:30 of 10 March.
\<close>

lemma skipped_midnight:
  "\<not> local_exists havana (MakeDate 19792 0)
   \<and> LocalTime havana (MakeDate 19792 (MakeTime 15 0 0 0)) = MakeDate 19792 (MakeTime 11 0 0 0)
   \<and> LocalTime havana
        (fst (getDatesFromRange havana (MakeDate 19792 (MakeTime 15 0 0 0))
                (MakeDate 19792 (MakeTime 15 0 0 0)) Today))
       = MakeDate 19792 (MakeTime 1 0 0 0)"
  by (simp add: local_exists_def havana_def zone_with_change_def getDatesFromRange_def
      setHours_def MakeDate_def MakeTime_def Day_def msPerDay_def)

lemma skipped_time_of_day:
  "\<not> local_exists new_york (MakeDate 19792 (MakeTime 2 30 0 0))
   \<and> LocalTime new_york (MakeDate 19799 (MakeTime 6 30 0 0)) = MakeDate 19799 (MakeTime 2 30 0 0)
   \<and> fetchAnalytics_query new_york (MakeDate 19799 (MakeTime 6 30 0 0)) Days7
       = Inr [Gte ''created_at'' (Instant (MakeDate 19792 (MakeTime 7 30 0 0)))]
   \<and> LocalTime new_york (MakeDate 19792 (MakeTime 7 30 0 0)) = MakeDate 19792 (MakeTime 3 30 0 0)"
  by (simp add: local_exists_def new_york_def zone_with_change_def fetchAnalytics_query_def
      parseInt_tokens setDate_minus_def MakeDate_def MakeTime_def Day_def TimeWithinDay_def
      msPerDay_def)

text \<open>
  C3 (amended).  Let both clock readings be the instant \<open>T\<close>, on the local day \<open>D\<close>, in any
  time zone, and let a local time exist when no clock change skips it.  The dashboard
  bounds \<open>created_at\<close> from below by the start and from above by the end of its window.
  For \<open>today\<close>, where local 00:00:00.000 and 23:59:59.999 of \<open>D\<close> exist, the start and the
  end are at these local times.  For \<open>7d\<close> and \<open>30d\<close>, where local midnight of \<open>D\<close> and of
  \<open>D\<close> minus 6 and 29 days exist, the start is at local midnight of \<open>D\<close> minus 6 and 29
  days, and the end is \<open>T\<close> itself.  The analytics query has no date predicate for \<open>all\<close>;
  for \<open>7d\<close>, \<open>30d\<close> and \<open>90d\<close> it has a single lower bound and no upper bound, and where
  \<open>T\<close>'s local time of day exists on \<open>D\<close> minus 7, 30 and 90 days, the bound is at that
  local time.
\<close>

theorem C3_date_windows:
  "getDatesFromRange z T T Today =
      (UTC z (MakeDate (Day (LocalTime z T)) 0), UTC z (MakeDate (Day (LocalTime z T)) 86399999))
   \<and> (local_exists z (MakeDate (Day (LocalTime z T)) 0) \<longrightarrow>
        LocalTime z (fst (getDatesFromRange z T T Today)) = MakeDate (Day (LocalTime z T)) 0)
   \<and> (local_exists z (MakeDate (Day (LocalTime z T)) 86399999) \<longrightarrow>
        LocalTime z (snd (getDatesFromRange z T T Today)) = MakeDate (Day (LocalTime z T)) 86399999)
   \<and> (local_exists z (MakeDate (Day (LocalTime z T)) 0) \<longrightarrow>
        getDatesFromRange z T T Last7d = (UTC z (MakeDate (Day (LocalTime z T) - 6) 0), T)
        \<and> getDatesFromRange z T T Last30d = (UTC z (MakeDate (Day (LocalTime z T) - 29) 0), T))
   \<and> (local_exists z (MakeDate (Day (LocalTime z T)) 0)
        \<and> local_exists z (MakeDate (Day (LocalTime z T) - 6) 0) \<longrightarrow>
        LocalTime z (fst (getDatesFromRange z T T Last7d)) = MakeDate (Day (LocalTime z T) - 6) 0)
   \<and> (local_exists z (MakeDate (Day (LocalTime z T)) 0)
        \<and> local_exists z (MakeDate (Day (LocalTime z T) - 29) 0) \<longrightarrow>
        LocalTime z (fst (getDatesFromRange z T T Last30d)) = MakeDate (Day (LocalTime z T) - 29) 0)
   \<and> snd (getDatesFromRange z T T Last7d) = T
   \<and> snd (getDatesFromRange z T T Last30d) = T
   \<and> fetchDashboardData_query z T T r =
        [Gte ''created_at'' (Instant (fst (getDatesFromRange z T T r))),
         Lte ''created_at'' (Instant (snd (getDatesFromRange z T T r)))]
   \<and> fetchAnalytics_query z T All = Inr []
   \<and> (\<forall>p \<in> {(Days7, 7), (Days30, 30), (Days90, 90)}.
        (\<exists>b. fetchAnalytics_query z T (fst p) = Inr [Gte ''created_at'' (Instant b)]
           \<and> b = UTC z (MakeDate (Day (LocalTime z T) - snd p) (TimeWithinDay (LocalTime z T)))
           \<and> (local_exists z (MakeDate (Day (LocalTime z T) - snd p) (TimeWithinDay (LocalTime z T))) \<longrightarrow>
                LocalTime z b = MakeDate (Day (LocalTime z T) - snd p) (TimeWithinDay (LocalTime z T)))))"
proof -
  let ?D = "Day (LocalTime z T)"
  have t0: "MakeTime 0 0 0 0 = 0" "MakeTime 23 59 59 999 = 86399999"
    by (simp_all add: MakeTime_def)
  have a: "getDatesFromRange z T T Today = (UTC z (MakeDate ?D 0), UTC z (MakeDate ?D 86399999))"
    by (simp add: getDatesFromRange_def setHours_def t0)
  have a1: "local_exists z (MakeDate ?D 0) \<longrightarrow>
        LocalTime z (fst (getDatesFromRange z T T Today)) = MakeDate ?D 0"
    "local_exists z (MakeDate ?D 86399999) \<longrightarrow>
        LocalTime z (snd (getDatesFromRange z T T Today)) = MakeDate ?D 86399999"
    by (simp_all add: a local_exists_def)
  have m: "Day (MakeDate ?D 0) = ?D" "TimeWithinDay (MakeDate ?D 0) = 0"
    by (simp_all add: Day_MakeDate TimeWithinDay_MakeDate msPerDay_def)
  have b: "local_exists z (MakeDate ?D 0) \<longrightarrow>
        getDatesFromRange z T T Last7d = (UTC z (MakeDate (?D - 6) 0), T)
        \<and> getDatesFromRange z T T Last30d = (UTC z (MakeDate (?D - 29) 0), T)"
    by (simp add: getDatesFromRange_def setHours_def setDate_minus_def t0 local_exists_def m)
  have b1: "local_exists z (MakeDate ?D 0) \<and> local_exists z (MakeDate (?D - 6) 0) \<longrightarrow>
        LocalTime z (fst (getDatesFromRange z T T Last7d)) = MakeDate (?D - 6) 0"
    "local_exists z (MakeDate ?D 0) \<and> local_exists z (MakeDate (?D - 29) 0) \<longrightarrow>
        LocalTime z (fst (getDatesFromRange z T T Last30d)) = MakeDate (?D - 29) 0"
    using b by (auto simp: local_exists_def)
  have b2: "snd (getDatesFromRange z T T Last7d) = T" "snd (getDatesFromRange z T T Last30d) = T"
    by (simp_all add: getDatesFromRange_def)
  have c: "fetchDashboardData_query z T T r =
        [Gte ''created_at'' (Instant (fst (getDatesFromRange z T T r))),
         Lte ''created_at'' (Instant (snd (getDatesFromRange z T T r)))]"
    by (simp add: fetchDashboardData_query_def split_beta)
  have d: "fetchAnalytics_query z T All = Inr []"
    by (simp add: fetchAnalytics_query_def)
  have e: "\<forall>p \<in> {(Days7, 7), (Days30, 30), (Days90, 90)}.
        (\<exists>b. fetchAnalytics_query z T (fst p) = Inr [Gte ''created_at'' (Instant b)]
           \<and> b = UTC z (MakeDate (?D - snd p) (TimeWithinDay (LocalTime z T)))
           \<and> (local_exists z (MakeDate (?D - snd p) (TimeWithinDay (LocalTime z T))) \<longrightarrow>
                LocalTime z b = MakeDate (?D - snd p) (TimeWithinDay (LocalTime z T))))"
    by (simp add: fetchAnalytics_query_def parseInt_tokens setDate_minus_def Let_def
        local_exists_def)
  from a a1 b b1 b2 c d e show ?thesis by blast
qed

theorem C3_date_windows_witness:
  "getDatesFromRange new_york (MakeDate 19802 (MakeTime 18 0 0 0)) (MakeDate 19802 (MakeTime 18 0 0 0)) Last7d
     = (MakeDate 19796 (MakeTime 4 0 0 0), MakeDate 19802 (MakeTime 18 0 0 0))
   \<and> LocalTime new_york (MakeDate 19796 (MakeTime 4 0 0 0)) = MakeDate 19796 0
   \<and> LocalTime new_york (MakeDate 19802 (MakeTime 18 0 0 0)) = MakeDate 19802 (MakeTime 14 0 0 0)
   \<and> getDatesFromRange new_york (MakeDate 19802 (MakeTime 18 0 0 0)) (MakeDate 19802 (MakeTime 18 0 0 0)) Today
     = (MakeDate 19802 (MakeTime 4 0 0 0), MakeDate 19803 (MakeTime 3 59 59 999))
   \<and> fetchAnalytics_query new_york (MakeDate 19802 (MakeTime 18 0 0 0)) Days7
     = Inr [Gte ''created_at'' (Instant (MakeDate 19795 (MakeTime 18 0 0 0)))]
   \<and> LocalTime new_york (MakeDate 19795 (MakeTime 18 0 0 0)) = MakeDate 19795 (MakeTime 14 0 0 0)"
proof -
  let ?T = "MakeDate 19802 (MakeTime 18 0 0 0)"
  have l: "LocalTime new_york ?T = MakeDate 19802 (MakeTime 14 0 0 0)"
    by (simp add: new_york_def zone_with_change_def MakeDate_def MakeTime_def msPerDay_def)
  have D: "Day (LocalTime new_york ?T) = 19802" "TimeWithinDay (LocalTime new_york ?T) = MakeTime 14 0 0 0"
    by (simp_all add: new_york_def zone_with_change_def MakeDate_def MakeTime_def Day_def
        TimeWithinDay_def msPerDay_def)
  have h: "local_exists new_york (MakeDate 19802 0)" "local_exists new_york (MakeDate 19796 0)"
    "local_exists new_york (MakeDate 19795 (MakeTime 14 0 0 0))"
    by (simp_all add: local_exists_def new_york_def zone_with_change_def MakeDate_def
        MakeTime_def msPerDay_def)
  have u: "UTC new_york (MakeDate 19796 0) = MakeDate 19796 (MakeTime 4 0 0 0)"
    "UTC new_york (MakeDate 19802 0) = MakeDate 19802 (MakeTime 4 0 0 0)"
    "UTC new_york (MakeDate 19802 86399999) = MakeDate 19803 (MakeTime 3 59 59 999)"
    "UTC new_york (MakeDate 19795 (MakeTime 14 0 0 0)) = MakeDate 19795 (MakeTime 18 0 0 0)"
    by (simp_all add: new_york_def zone_with_change_def MakeDate_def MakeTime_def msPerDay_def)
  note t = C3_date_windows [of new_york ?T Today, unfolded D]
  have one: "getDatesFromRange new_york ?T ?T Last7d = (MakeDate 19796 (MakeTime 4 0 0 0), ?T)"
    using t h(1) u(1) by (elim conjE) simp
  have two: "LocalTime new_york (fst (getDatesFromRange new_york ?T ?T Last7d)) = MakeDate 19796 0"
    using t h(1) h(2) by (elim conjE) simp
  have three: "getDatesFromRange new_york ?T ?T Today
     = (MakeDate 19802 (MakeTime 4 0 0 0), MakeDate 19803 (MakeTime 3 59 59 999))"
    using t u(2) u(3) by (elim conjE) simp
  have "\<exists>b. fetchAnalytics_query new_york ?T Days7 = Inr [Gte ''created_at'' (Instant b)]
           \<and> b = UTC new_york (MakeDate (19802 - 7) (MakeTime 14 0 0 0))
           \<and> (local_exists new_york (MakeDate (19802 - 7) (MakeTime 14 0 0 0)) \<longrightarrow>
                LocalTime new_york b = MakeDate (19802 - 7) (MakeTime 14 0 0 0))"
    using t by (elim conjE) simp
  then have four: "fetchAnalytics_query new_york ?T Days7
       = Inr [Gte ''created_at'' (Instant (MakeDate 19795 (MakeTime 18 0 0 0)))]
     \<and> LocalTime new_york (MakeDate 19795 (MakeTime 18 0 0 0)) = MakeDate 19795 (MakeTime 14 0 0 0)"
    using h(3) u(4) by auto
  from one two three four l show ?thesis by simp
qed

text \<open>
  C3 as stated fails at the analytics call site: for \<open>7d\<close> at 00:00:05 of day 100, in a
  zone without clock changes, the only predicate is a lower bound at 00:00:05 of day 93,
  not local midnight of day 94, and there is no end bound.
\<close>

theorem C3_counterexample:
  "fetchAnalytics_query (fixed_zone 0) (MakeDate 100 5000) Days7
     = Inr [Gte ''created_at'' (Instant (MakeDate 93 5000))]
   \<and> fst (getDatesFromRange (fixed_zone 0) (MakeDate 100 5000) (MakeDate 100 5000) Last7d)
     = MakeDate 94 0"
  by (simp add: fetchAnalytics_query_def parseInt_tokens setDate_minus_def
      getDatesFromRange_def setHours_def fixed_zone_def MakeDate_def MakeTime_def Day_def
      TimeWithinDay_def msPerDay_def)

section \<open>Analysis table: the predicate builder (fetchAnalysisData)\<close>

text \<open>
  C4 at a failing input.  For the call-id text \<open>abc\<close> the query carries the id-equality
  predicate with the operand NaN; it is omitted only for the empty text.
\<close>

theorem C4_failing_input:
  "fetchAnalysisData_query ''abc'' no_filters = [Eq ''call_id'' (Number NaN)]
   \<and> fetchAnalysisData_query '''' no_filters = []
   \<and> fetchAnalysisData_query ''42'' no_filters = [Eq ''call_id'' (Number (Fin 42))]"
  by (simp add: fetchAnalysisData_query_def no_filters_def parseInt10_def strip_sign_def
      is_space_def is_digit_def digits_value_def digit_value_def)

section \<open>View state and query completion\<close>

subsection \<open>The analysis table and its expanded row\<close>

text \<open>
  C8 (amended).  Selecting a row toggles: the expanded row becomes none when the row was
  the expanded one, and that row otherwise.  Starting and completing a fetch leave the
  expanded-row identifier as it is, whatever the new result set holds.  Every row
  rendered as expanded belongs to the current result set and carries the expanded-row
  identifier; an identifier that no row of the result set carries expands no row.
\<close>

theorem C8_expansion:
  "expandedRowId (handleRowToggle r s) = (if expandedRowId s = Some r then None else Some r)
   \<and> expandedRowId (fetch_start s) = expandedRowId s
   \<and> expandedRowId (fst (fetchAnalysisData_done res s)) = expandedRowId s
   \<and> (\<forall>row\<in>set (expanded_rows s). row \<in> set (view_rows s) \<and> expandedRowId s = Some (row_id row))
   \<and> ((\<forall>row\<in>set (view_rows s). expandedRowId s \<noteq> Some (row_id row)) \<longrightarrow> expanded_rows s = [])"
proof -
  have a: "expandedRowId (handleRowToggle r s) = (if expandedRowId s = Some r then None else Some r)"
    by (simp add: handleRowToggle_def)
  have b: "expandedRowId (fetch_start s) = expandedRowId s"
    by (simp add: fetch_start_def)
  have c: "expandedRowId (fst (fetchAnalysisData_done res s)) = expandedRowId s"
    by (cases res) (simp_all add: fetchAnalysisData_done_def fetch_done_def)
  have d: "\<forall>row\<in>set (expanded_rows s). row \<in> set (view_rows s) \<and> expandedRowId s = Some (row_id row)"
    by (simp add: expanded_rows_def)
  have e: "(\<forall>row\<in>set (view_rows s). expandedRowId s \<noteq> Some (row_id row)) \<longrightarrow> expanded_rows s = []"
    by (simp add: expanded_rows_def filter_empty_conv)
  from a b c d e show ?thesis by blast
qed

theorem C8_expansion_witness:
  "expandedRowId (handleRowToggle 5 (table_with [5, 7] None)) = Some 5
   \<and> expandedRowId (handleRowToggle 5 (table_with [5, 7] (Some 5))) = None
   \<and> expandedRowId (handleRowToggle 7 (table_with [5, 7] (Some 5))) = Some 7
   \<and> expanded_rows (table_with [7] (Some 5)) = []"
proof -
  have a: "expandedRowId (handleRowToggle 5 (table_with [5, 7] None)) = Some 5"
    using C8_expansion [of 5 "table_with [5, 7] None" "QueryData []"] by (simp add: table_with_def)
  have b: "expandedRowId (handleRowToggle 5 (table_with [5, 7] (Some 5))) = None"
    using C8_expansion [of 5 "table_with [5, 7] (Some 5)" "QueryData []"] by (simp add: table_with_def)
  have c: "expandedRowId (handleRowToggle 7 (table_with [5, 7] (Some 5))) = Some 7"
    using C8_expansion [of 7 "table_with [5, 7] (Some 5)" "QueryData []"] by (simp add: table_with_def)
  have h: "\<forall>row\<in>set (view_rows (table_with [7] (Some 5))).
      expandedRowId (table_with [7] (Some 5)) \<noteq> Some (row_id row)"
    by (simp add: table_with_def table_row_def)
  have d: "expanded_rows (table_with [7] (Some 5)) = []"
    using C8_expansion [of 5 "table_with [7] (Some 5)" "QueryData []"] h by blast
  from a b c d show ?thesis by blast
qed

text \<open>
  C8 as stated fails: row 5 is expanded, the next result set holds only row 7, and the
  expanded-row identifier is still 5.
\<close>

theorem C8_counterexample:
  "expandedRowId (fst (fetchAnalysisData_done (QueryData [table_row 7])
       (fetch_start (handleRowToggle 5 (table_with [5] None))))) = Some 5
   \<and> map row_id (view_rows (fst (fetchAnalysisData_done (QueryData [table_row 7])
       (fetch_start (handleRowToggle 5 (table_with [5] None)))))) = [7]"
  by (simp add: fetchAnalysisData_done_def fetch_done_def fetch_start_def handleRowToggle_def
      table_with_def table_row_def)

subsection \<open>The dashboard\<close>

text \<open>
  C9 (amended).  When the query of a list view (conversations, analytics, analysis
  table, meetings) or the dashboard's query for calls reports an error, the view's error
  message is set, its loading flag is cleared, the rows are kept, and no query is
  dispatched.  When the dashboard's count of meetings in the period reports an error,
  the count is set to 0, the dashboard's error message is left as it is, and no query is
  dispatched.
\<close>

theorem C9_query_failure:
  "view_error (fst (fetchConversations_done (QueryError e) v)) =
      Some ''Failed to load conversations. Please check your connection and Supabase configuration.''
   \<and> view_error (fst (fetchAnalytics_done (QueryError e) a)) = Some ''Failed to load analytics data.''
   \<and> view_error (fst (fetchAnalysisData_done (QueryError e) t)) = Some ''Failed to load analysis data.''
   \<and> view_error (fst (fetchMeetings_done (QueryError e) m)) = Some ''Failed to load scheduled meetings.''
   \<and> dash_error (fst (fetchDashboardData_done (QueryError e) d)) =
      Some ''Failed to load dashboard data. Please try again later.''
   \<and> view_rows (fst (fetchConversations_done (QueryError e) v)) = view_rows v
   \<and> view_rows (fst (fetchAnalytics_done (QueryError e) a)) = view_rows a
   \<and> view_rows (fst (fetchAnalysisData_done (QueryError e) t)) = view_rows t
   \<and> view_rows (fst (fetchMeetings_done (QueryError e) m)) = view_rows m
   \<and> stats (fst (fetchDashboardData_done (QueryError e) d)) = stats d
   \<and> \<not> view_loading (fst (fetchConversations_done (QueryError e) v))
   \<and> \<not> view_loading (fst (fetchAnalytics_done (QueryError e) a))
   \<and> \<not> view_loading (fst (fetchAnalysisData_done (QueryError e) t))
   \<and> \<not> view_loading (fst (fetchMeetings_done (QueryError e) m))
   \<and> \<not> dash_loading (fst (fetchDashboardData_done (QueryError e) d))
   \<and> filter is_dispatch (snd (fetchConversations_done (QueryError e) v)) = []
   \<and> filter is_dispatch (snd (fetchAnalytics_done (QueryError e) a)) = []
   \<and> filter is_dispatch (snd (fetchAnalysisData_done (QueryError e) t)) = []
   \<and> filter is_dispatch (snd (fetchMeetings_done (QueryError e) m)) = []
   \<and> filter is_dispatch (snd (fetchDashboardData_done (QueryError e) d)) = []
   \<and> meetingsInPeriod (fst (fetchMeetingsInPeriod_done (QueryError e) d)) = Some 0
   \<and> dash_error (fst (fetchMeetingsInPeriod_done (QueryError e) d)) = dash_error d
   \<and> filter is_dispatch (snd (fetchMeetingsInPeriod_done (QueryError e) d)) = []"
  by (simp add: fetchConversations_done_def fetchAnalytics_done_def fetchAnalysisData_done_def
      fetchMeetings_done_def fetchDashboardData_done_def fetchMeetingsInPeriod_done_def
      fetch_done_def is_dispatch_def)

theorem C9_query_failure_witness:
  "dash_error (fst (fetchDashboardData_done (QueryError ''timeout'') dashboard_loading)) =
      Some ''Failed to load dashboard data. Please try again later.''
   \<and> meetingsInPeriod (fst (fetchMeetingsInPeriod_done (QueryError ''timeout'') dashboard_loading)) = Some 0"
  using C9_query_failure [of "''timeout''" "undefined :: nat view_state" undefined undefined
      "undefined :: nat view_state" dashboard_loading]
  by simp

text \<open>
  C9 as stated fails: a failing count of meetings leaves the dashboard without an error
  message and shows the count 0.
\<close>

theorem C9_counterexample:
  "dash_error (fst (fetchMeetingsInPeriod_done (QueryError ''timeout'') dashboard_loading)) = None
   \<and> meetingsInPeriod (fst (fetchMeetingsInPeriod_done (QueryError ''timeout'') dashboard_loading)) = Some 0"
  by (simp add: fetchMeetingsInPeriod_done_def dashboard_loading_def)

section \<open>The debounced filter field\<close>

subsection \<open>Runs\<close>



















end
